theory Spec2Isabelle
  imports Main "HOL-Library.Word"
begin

section \<open>Worker packets (packets.js): the packet identity counter\<close>

text \<open>
  \<^verbatim>\<open>function Packet() { this.id = ++Packet.id >>> 0; }   Packet.id = 0;\<close>

  \<open>Packet.id\<close> is a JavaScript number. On integer values a number is exact up to
  \<open>2^53\<close>; there \<open>x + 1\<close> rounds back to \<open>x\<close>. The pre-increment stores the
  incremented number in \<open>Packet.id\<close> (it is not wrapped); only the value given to
  \<open>this.id\<close> goes through \<open>>>> 0\<close> (ToUint32). Every packet class calls
  \<open>Packet.call(this)\<close> first, so all of them draw from this one counter.
\<close>

definition Packet_id_init :: nat where
  "Packet_id_init = 0"

definition js_increment :: "nat \<Rightarrow> nat" where
  "js_increment c = (if c < 2 ^ 53 then c + 1 else c)"

definition to_uint32 :: "nat \<Rightarrow> nat" where
  "to_uint32 v = v mod 2 ^ 32"

text \<open>The constructor, on the counter: the identity of the new packet and the counter after.\<close>

definition Packet :: "nat \<Rightarrow> nat \<times> nat" where
  "Packet c = (let c' = js_increment c in (to_uint32 c', c'))"

text \<open>Constructing \<open>n\<close> packets in sequence: their identities in order, and the counter after.\<close>

fun construct :: "nat \<Rightarrow> nat \<Rightarrow> nat list \<times> nat" where
  "construct 0 c = ([], c)"
| "construct (Suc n) c =
     (case Packet c of (i, c') \<Rightarrow>
        (case construct n c' of (ids, c'') \<Rightarrow> (i # ids, c'')))"

section \<open>The binary primitive codec\<close>

text \<open>
  packets.js requires \<open>../utils/reader\<close> (BufferReader), \<open>../utils/encoding\<close>
  and the writer handed to \<open>toWriter\<close>; none of the three is among the sources. Their
  operations are modelled from the specification (section 4.1). A writer operation is the
  byte sequence it appends; a reader operation takes the bytes not yet consumed and gives an
  error, or the value read and the bytes left.
\<close>

type_synonym byte = "8 word"

datatype error =
    FramingError       \<comment> \<open>fewer bytes remain than a read needs\<close>
  | SyntaxError        \<comment> \<open>raised by \<open>JSON.parse\<close>\<close>
  | AssertionError     \<comment> \<open>a failed \<open>assert(...)\<close> of packets.js\<close>
  | TypeError          \<comment> \<open>a method called on \<open>undefined\<close>, or a method the object lacks\<close>
  | UnknownCommand     \<comment> \<open>no packet variant has the command code\<close>

type_synonym 'a reader = "byte list \<Rightarrow> error + 'a \<times> byte list"

definition rreturn :: "'a \<Rightarrow> 'a reader" where
  "rreturn x data = Inr (x, data)"

definition rbind :: "'a reader \<Rightarrow> ('a \<Rightarrow> 'b reader) \<Rightarrow> 'b reader" where
  "rbind r f data = (case r data of Inl e \<Rightarrow> Inl e | Inr (x, rest) \<Rightarrow> f x rest)"

text \<open>A value computed outside the reader (it may have raised) enters the sequence.\<close>

definition rlift :: "error + 'a \<Rightarrow> 'a reader" where
  "rlift v data = (case v of Inl e \<Rightarrow> Inl e | Inr x \<Rightarrow> Inr (x, data))"

text \<open>
  Every \<open>fromRaw\<close> has the shape
  \<^verbatim>\<open>let br = new BufferReader(data, true); ... reads ...; return packet;\<close>
  and returns without looking at what the reader has left.
\<close>

definition run :: "'a reader \<Rightarrow> byte list \<Rightarrow> error + 'a" where
  "run r data = (case r data of Inl e \<Rightarrow> Inl e | Inr (x, rest) \<Rightarrow> Inr x)"

text \<open>Little-endian integers of a fixed number of bytes.\<close>

fun le_bytes :: "nat \<Rightarrow> nat \<Rightarrow> byte list" where
  "le_bytes 0 v = []"
| "le_bytes (Suc k) v = of_nat (v mod 256) # le_bytes k (v div 256)"

fun le_nat :: "byte list \<Rightarrow> nat" where
  "le_nat [] = 0"
| "le_nat (b # bs) = unat b + 256 * le_nat bs"

text \<open>
  Modelled from the spec: fixed-size blocks (section 4.1, "read/write exactly N bytes;
  decoding fails if the remaining buffer is shorter than N"). \<open>writeBytes\<close> appends the
  buffer it is given, whatever its length.
\<close>

definition writeBytes :: "byte list \<Rightarrow> byte list" where
  "writeBytes value = value"

definition readBytes :: "nat \<Rightarrow> byte list reader" where
  "readBytes n data =
     (if n \<le> length data then Inr (take n data, drop n data) else Inl FramingError)"

text \<open>
  Modelled from the spec: one byte and the fixed 4-byte integers. A number outside the
  field's range is written as its wrap-around bit pattern (section 3: the sentinel -1 is
  "encoded as [its] unsigned wraparound bit pattern"; section 4.1: "signed 32-bit values
  are encoded as their two's-complement bit pattern in a fixed 4-byte field").
  \<open>readU32\<close> gives the unsigned reading, \<open>read32\<close> the signed one.
\<close>

definition writeU8 :: "int \<Rightarrow> byte list" where
  "writeU8 v = le_bytes 1 (nat (v mod 2 ^ 8))"

definition readU8 :: "int reader" where
  "readU8 = rbind (readBytes 1) (\<lambda>bs. rreturn (int (le_nat bs)))"

definition writeU32 :: "int \<Rightarrow> byte list" where
  "writeU32 v = le_bytes 4 (nat (v mod 2 ^ 32))"

definition readU32 :: "int reader" where
  "readU32 = rbind (readBytes 4) (\<lambda>bs. rreturn (int (le_nat bs)))"

definition write32 :: "int \<Rightarrow> byte list" where
  "write32 v = le_bytes 4 (nat (v mod 2 ^ 32))"

definition to_int32 :: "int \<Rightarrow> int" where
  "to_int32 v = (v + 2 ^ 31) mod 2 ^ 32 - 2 ^ 31"

definition read32 :: "int reader" where
  "read32 = rbind (readBytes 4) (\<lambda>bs. rreturn (to_int32 (int (le_nat bs))))"

text \<open>
  Modelled from the spec: the variable-length integer ("a compact self-delimiting encoding
  for small non-negative integers", with \<open>sizeOf(n)\<close> the number of bytes \<open>write(n)\<close>
  emits). The spec fixes no layout beyond one byte for small values (section 8: index 0 is
  the byte \<open>0x00\<close>, the length 71 is one byte); the model takes the layout of the
  protocol the packets belong to: one byte below \<open>0xfd\<close>, else a marker byte
  \<open>0xfd\<close>, \<open>0xfe\<close> or \<open>0xff\<close> and 2, 4 or 8 little-endian bytes.
\<close>

definition sizeVarint :: "nat \<Rightarrow> nat" where
  "sizeVarint num =
     (if num < 0xfd then 1 else if num \<le> 0xffff then 3 else if num \<le> 0xffffffff then 5 else 9)"

definition writeVarint :: "nat \<Rightarrow> byte list" where
  "writeVarint num =
     (if num < 0xfd then le_bytes 1 num
      else if num \<le> 0xffff then 0xfd # le_bytes 2 num
      else if num \<le> 0xffffffff then 0xfe # le_bytes 4 num
      else 0xff # le_bytes 8 num)"

definition readVarint :: "nat reader" where
  "readVarint =
     rbind (readBytes 1) (\<lambda>m.
       if m = [0xff] then rbind (readBytes 8) (\<lambda>bs. rreturn (le_nat bs))
       else if m = [0xfe] then rbind (readBytes 4) (\<lambda>bs. rreturn (le_nat bs))
       else if m = [0xfd] then rbind (readBytes 2) (\<lambda>bs. rreturn (le_nat bs))
       else rreturn (le_nat m))"

text \<open>
  Modelled from the spec: length-prefixed byte strings ("a variable-length-integer length
  followed by exactly that many bytes; decoding fails with a framing error if fewer bytes
  remain than declared").
\<close>

definition sizeVarBytes :: "byte list \<Rightarrow> nat" where
  "sizeVarBytes value = sizeVarint (length value) + length value"

definition writeVarBytes :: "byte list \<Rightarrow> byte list" where
  "writeVarBytes value = writeVarint (length value) @ writeBytes value"

definition readVarBytes :: "byte list reader" where
  "readVarBytes = rbind readVarint (\<lambda>n. readBytes n)"

text \<open>
  Modelled from the spec: length-prefixed UTF-8 text (section 4.1), the length being that
  of the encoded bytes. A \<open>string\<close> of the model is the sequence of UTF-8 code units of
  the text (a \<open>char\<close> is one byte), so that the byte length is the length and encoding to
  UTF-8 and back is byte by byte. Text that is not well-formed Unicode (a lone surrogate
  in a JavaScript string, an ill-formed byte sequence on the wire) has no counterpart here.
\<close>

definition utf8_bytes :: "string \<Rightarrow> byte list" where
  "utf8_bytes s = map (\<lambda>c. of_nat (of_char c)) s"

definition utf8_string :: "byte list \<Rightarrow> string" where
  "utf8_string bs = map (\<lambda>b. char_of (unat b)) bs"

definition sizeVarString :: "string \<Rightarrow> nat" where
  "sizeVarString str = sizeVarint (length (utf8_bytes str)) + length (utf8_bytes str)"

definition writeVarString :: "string \<Rightarrow> byte list" where
  "writeVarString str = writeVarint (length (utf8_bytes str)) @ writeBytes (utf8_bytes str)"

definition readVarString :: "string reader" where
  "readVarString = rbind readVarint (\<lambda>n. rbind (readBytes n) (\<lambda>bs. rreturn (utf8_string bs)))"

section \<open>Objects the packets carry\<close>

text \<open>
  Transactions (\<open>TX\<close>, \<open>MTX\<close>), coin views (\<open>CoinView\<close>), key rings (\<open>KeyRing\<close>) and
  witnesses (\<open>Witness\<close>) are classes of other modules; the spec leaves their formats to
  those modules. A packet only calls their size, write and read operations, which the
  model takes as parameters: one \<open>codec\<close> per class. \<open>JSON.stringify\<close> and
  \<open>JSON.parse\<close>, used by the event packet, are parameters as well.
\<close>

record 'a codec =
  getSize_of :: "'a \<Rightarrow> nat"
  toWriter_of :: "'a \<Rightarrow> byte list"
  fromReader_of :: "'a reader"

record ('tx, 'view, 'ring, 'wit, 'json) ext =
  TX :: "'tx codec"
  CoinView :: "'tx \<Rightarrow> 'view codec"    \<comment> \<open>\<open>view.getSize(tx)\<close>, \<open>view.toWriter(bw, tx)\<close>, \<open>CoinView.fromReader(br, tx)\<close>\<close>
  KeyRing :: "'ring codec"
  Witness :: "'wit codec"               \<comment> \<open>\<open>getVarSize()\<close>, \<open>toWriter(bw)\<close>, \<open>Witness.fromReader(br)\<close>\<close>
  JSON_stringify :: "'json list \<Rightarrow> string"
  JSON_parse :: "string \<Rightarrow> error + 'json list"

text \<open>
  Modelled from the spec: a script is carried as "the script's length-prefixed bytes"
  (section 8); the model identifies a script with its raw bytes.
\<close>

type_synonym script = "byte list"

definition Script_getVarSize :: "script \<Rightarrow> nat" where
  "Script_getVarSize s = sizeVarBytes s"

definition Script_toWriter :: "script \<Rightarrow> byte list" where
  "Script_toWriter s = writeVarBytes s"

definition Script_fromReader :: "script reader" where
  "Script_fromReader = readVarBytes"

text \<open>A coin as the packets use it: \<open>coin.value\<close> and \<open>coin.script\<close> (an \<open>Output\<close> when decoded).\<close>

record coin =
  coin_value :: nat
  coin_script :: script

text \<open>
  The mutable transaction of a sign packet: the transaction and its attached view
  (\<open>this.tx\<close> and \<open>this.tx.view\<close>).
\<close>

record ('tx, 'view) mtx =
  mtx_tx :: 'tx
  mtx_view :: 'view

text \<open>
  The properties of a wrapped error that the error packets touch. Each is absent
  (\<open>undefined\<close>), \<open>null\<close> or a string.
\<close>

datatype jsval = JUndefined | JNull | JString string

record error_obj =
  err_message :: jsval
  err_stack :: jsval
  err_type :: jsval

text \<open>\<open>x + ''\<close> and \<open>x || ''\<close>.\<close>

fun js_to_string :: "jsval \<Rightarrow> string" where
  "js_to_string JUndefined = ''undefined''"
| "js_to_string JNull = ''null''"
| "js_to_string (JString s) = s"

fun js_or_empty :: "jsval \<Rightarrow> string" where
  "js_or_empty (JString s) = s"
| "js_or_empty _ = []"

section \<open>The packets\<close>

text \<open>
  One constructor per packet class, its arguments the fields in the order of the class's
  constructor parameters (the event packet also holds \<open>json\<close>, computed by its
  constructor). A number field is an \<open>int\<close> where the source gives it the default -1 or
  writes it with \<open>writeU8\<close>, and a \<open>nat\<close> where it is written as a variable-length
  integer; \<open>flags\<close> is \<open>None\<close> for \<open>null\<close>. The \<open>id\<close> every packet gets from the
  \<open>Packet\<close> constructor is independent of the fields and is modelled by \<open>Packet\<close> above.

  The \<open>tx\<close> of a sign packet is an \<open>MTX\<close> written with its view. The \<open>tx\<close> of a
  sign-input packet is an \<open>MTX\<close> too, but only the transaction is written and read
  (\<open>this.tx.toWriter(bw)\<close>, \<open>MTX.fromReader(br)\<close>): its view is not a field the packet
  carries, and the model leaves it out.
\<close>

datatype ('tx, 'view, 'ring, 'wit, 'json) packet =
    EventPacket "'json list" string                   \<comment> \<open>items, json\<close>
  | LogPacket string                                  \<comment> \<open>text\<close>
  | ErrorPacket error_obj                             \<comment> \<open>error\<close>
  | ErrorResultPacket error_obj                       \<comment> \<open>error\<close>
  | VerifyPacket 'tx 'view "int option"               \<comment> \<open>tx, view, flags\<close>
  | VerifyResultPacket bool                           \<comment> \<open>value\<close>
  | SignPacket "('tx, 'view) mtx" "'ring list" int    \<comment> \<open>tx, rings, type\<close>
  | SignResultPacket nat "'wit list" "script list"    \<comment> \<open>total, witness, script\<close>
  | VerifyInputPacket 'tx nat coin "int option"       \<comment> \<open>tx, index, coin, flags\<close>
  | VerifyInputResultPacket bool                      \<comment> \<open>value\<close>
  | SignInputPacket 'tx nat coin 'ring int            \<comment> \<open>tx, index, coin, ring, type\<close>
  | SignInputResultPacket bool 'wit script            \<comment> \<open>value, witness, script\<close>
  | ECVerifyPacket "byte list" "byte list" "byte list" \<comment> \<open>msg, sig, key\<close>
  | ECVerifyResultPacket bool                         \<comment> \<open>value\<close>
  | ECSignPacket "byte list" "byte list"              \<comment> \<open>msg, key\<close>
  | ECSignResultPacket "byte list"                    \<comment> \<open>sig\<close>
  | MinePacket "byte list" "byte list" int int        \<comment> \<open>data, target, min, max\<close>
  | MineResultPacket int                              \<comment> \<open>nonce\<close>
  | ScryptPacket "byte list" "byte list" int int int int \<comment> \<open>passwd, salt, N, r, p, len\<close>
  | ScryptResultPacket "byte list"                    \<comment> \<open>key\<close>

text \<open>
  \<^verbatim>\<open>function EventPacket(items) { Packet.call(this);
    this.items = items || []; this.json = JSON.stringify(this.items); }\<close>
  (\<open>None\<close> for a call without items.)
\<close>

definition new_EventPacket :: "('tx, 'view, 'ring, 'wit, 'json) ext \<Rightarrow> 'json list option \<Rightarrow>
    ('tx, 'view, 'ring, 'wit, 'json) packet" where
  "new_EventPacket X items =
     (let its = (case items of Some xs \<Rightarrow> xs | None \<Rightarrow> [])
      in EventPacket its (JSON_stringify X its))"

text \<open>\<open>packetTypes\<close>: the command code of each class (\<open>prototype.cmd\<close>).\<close>

fun cmd :: "('tx, 'view, 'ring, 'wit, 'json) packet \<Rightarrow> nat" where
  "cmd (EventPacket items json) = 0"
| "cmd (LogPacket text) = 1"
| "cmd (ErrorPacket e) = 2"
| "cmd (ErrorResultPacket e) = 3"
| "cmd (VerifyPacket tx view flags) = 4"
| "cmd (VerifyResultPacket v) = 5"
| "cmd (SignPacket tx rings type) = 6"
| "cmd (SignResultPacket tot witness script) = 7"
| "cmd (VerifyInputPacket tx index c flags) = 8"
| "cmd (VerifyInputResultPacket v) = 9"
| "cmd (SignInputPacket tx index c ring type) = 10"
| "cmd (SignInputResultPacket v witness script) = 11"
| "cmd (ECVerifyPacket msg sig key) = 12"
| "cmd (ECVerifyResultPacket v) = 13"
| "cmd (ECSignPacket msg key) = 14"
| "cmd (ECSignResultPacket sig) = 15"
| "cmd (MinePacket dat target mn mx) = 16"
| "cmd (MineResultPacket nonce) = 17"
| "cmd (ScryptPacket passwd salt N r p len) = 18"
| "cmd (ScryptResultPacket key) = 19"

subsection \<open>getSize\<close>

text \<open>
  \<open>SignResultPacket.getSize\<close> walks \<open>this.script\<close> and reads \<open>this.witness[i]\<close> beside
  it: a shorter witness array makes it call \<open>getVarSize\<close> on \<open>undefined\<close>, a longer one
  is not looked at beyond the scripts. No other \<open>getSize\<close> can raise on the fields of the
  model.
\<close>

fun getSize :: "('tx, 'view, 'ring, 'wit, 'json) ext \<Rightarrow>
    ('tx, 'view, 'ring, 'wit, 'json) packet \<Rightarrow> error + nat" where
  "getSize X (EventPacket items json) = Inr (sizeVarString json)"
| "getSize X (LogPacket text) = Inr (sizeVarString text)"
| "getSize X (ErrorPacket e) =
     Inr (sizeVarString (js_to_string (err_message e))
        + sizeVarString (js_to_string (err_stack e))
        + sizeVarString (js_or_empty (err_type e)))"
| "getSize X (ErrorResultPacket e) =
     Inr (sizeVarString (js_to_string (err_message e))
        + sizeVarString (js_to_string (err_stack e))
        + sizeVarString (js_or_empty (err_type e)))"
| "getSize X (VerifyPacket tx view flags) =
     Inr (getSize_of (TX X) tx + getSize_of (CoinView X tx) view + 4)"
| "getSize X (VerifyResultPacket v) = Inr 1"
| "getSize X (SignPacket tx rings type) =
     Inr (getSize_of (TX X) (mtx_tx tx)
        + getSize_of (CoinView X (mtx_tx tx)) (mtx_view tx)
        + sizeVarint (length rings)
        + sum_list (map (getSize_of (KeyRing X)) rings)
        + 1)"
| "getSize X (SignResultPacket tot witness script) =
     (if length witness < length script then Inl TypeError
      else Inr (sizeVarint tot
        + sizeVarint (length script)
        + sum_list (map (\<lambda>(s, w). Script_getVarSize s + getSize_of (Witness X) w)
            (zip script witness))))"
| "getSize X (VerifyInputPacket tx index c flags) =
     Inr (getSize_of (TX X) tx
        + sizeVarint index
        + sizeVarint (coin_value c)
        + Script_getVarSize (coin_script c)
        + 4)"
| "getSize X (VerifyInputResultPacket v) = Inr 1"
| "getSize X (SignInputPacket tx index c ring type) =
     Inr (getSize_of (TX X) tx
        + sizeVarint index
        + sizeVarint (coin_value c)
        + Script_getVarSize (coin_script c)
        + getSize_of (KeyRing X) ring
        + 1)"
| "getSize X (SignInputResultPacket v witness script) =
     Inr (1 + Script_getVarSize script + getSize_of (Witness X) witness)"
| "getSize X (ECVerifyPacket msg sig key) =
     Inr (sizeVarBytes msg + sizeVarBytes sig + sizeVarBytes key)"
| "getSize X (ECVerifyResultPacket v) = Inr 1"
| "getSize X (ECSignPacket msg key) = Inr (sizeVarBytes msg + sizeVarBytes key)"
| "getSize X (ECSignResultPacket sig) = Inr (sizeVarBytes sig)"
| "getSize X (MinePacket dat target mn mx) = Inr 120"
| "getSize X (MineResultPacket nonce) = Inr 4"
| "getSize X (ScryptPacket passwd salt N r p len) =
     Inr (sizeVarBytes passwd + sizeVarBytes salt + 16)"
| "getSize X (ScryptResultPacket key) = Inr (sizeVarBytes key)"

subsection \<open>toWriter\<close>

text \<open>
  The bytes a packet appends to the writer. \<open>SignResultPacket.toWriter\<close> starts with
  \<open>assert(this.script.length === this.witness.length)\<close>.
\<close>

definition write_bool :: "bool \<Rightarrow> byte list" where
  "write_bool v = writeU8 (if v then 1 else 0)"

definition write_flags :: "int option \<Rightarrow> byte list" where
  "write_flags flags = write32 (case flags of Some f \<Rightarrow> f | None \<Rightarrow> - 1)"

fun toWriter :: "('tx, 'view, 'ring, 'wit, 'json) ext \<Rightarrow>
    ('tx, 'view, 'ring, 'wit, 'json) packet \<Rightarrow> error + byte list" where
  "toWriter X (EventPacket items json) = Inr (writeVarString json)"
| "toWriter X (LogPacket text) = Inr (writeVarString text)"
| "toWriter X (ErrorPacket e) =
     Inr (writeVarString (js_to_string (err_message e))
        @ writeVarString (js_to_string (err_stack e))
        @ writeVarString (js_or_empty (err_type e)))"
| "toWriter X (ErrorResultPacket e) =
     Inr (writeVarString (js_to_string (err_message e))
        @ writeVarString (js_to_string (err_stack e))
        @ writeVarString (js_or_empty (err_type e)))"
| "toWriter X (VerifyPacket tx view flags) =
     Inr (toWriter_of (TX X) tx
        @ toWriter_of (CoinView X tx) view
        @ write_flags flags)"
| "toWriter X (VerifyResultPacket v) = Inr (write_bool v)"
| "toWriter X (SignPacket tx rings type) =
     Inr (toWriter_of (TX X) (mtx_tx tx)
        @ toWriter_of (CoinView X (mtx_tx tx)) (mtx_view tx)
        @ writeVarint (length rings)
        @ concat (map (toWriter_of (KeyRing X)) rings)
        @ writeU8 type)"
| "toWriter X (SignResultPacket tot witness script) =
     (if length script \<noteq> length witness then Inl AssertionError
      else Inr (writeVarint tot
        @ writeVarint (length script)
        @ concat (map (\<lambda>(s, w). Script_toWriter s @ toWriter_of (Witness X) w)
            (zip script witness))))"
| "toWriter X (VerifyInputPacket tx index c flags) =
     Inr (toWriter_of (TX X) tx
        @ writeVarint index
        @ writeVarint (coin_value c)
        @ Script_toWriter (coin_script c)
        @ write_flags flags)"
| "toWriter X (VerifyInputResultPacket v) = Inr (write_bool v)"
| "toWriter X (SignInputPacket tx index c ring type) =
     Inr (toWriter_of (TX X) tx
        @ writeVarint index
        @ writeVarint (coin_value c)
        @ Script_toWriter (coin_script c)
        @ toWriter_of (KeyRing X) ring
        @ writeU8 type)"
| "toWriter X (SignInputResultPacket v witness script) =
     Inr (write_bool v @ Script_toWriter script @ toWriter_of (Witness X) witness)"
| "toWriter X (ECVerifyPacket msg sig key) =
     Inr (writeVarBytes msg @ writeVarBytes sig @ writeVarBytes key)"
| "toWriter X (ECVerifyResultPacket v) = Inr (write_bool v)"
| "toWriter X (ECSignPacket msg key) = Inr (writeVarBytes msg @ writeVarBytes key)"
| "toWriter X (ECSignResultPacket sig) = Inr (writeVarBytes sig)"
| "toWriter X (MinePacket dat target mn mx) =
     Inr (writeBytes dat @ writeBytes target @ writeU32 mn @ writeU32 mx)"
| "toWriter X (MineResultPacket nonce) = Inr (writeU32 nonce)"
| "toWriter X (ScryptPacket passwd salt N r p len) =
     Inr (writeVarBytes passwd @ writeVarBytes salt
        @ writeU32 N @ writeU32 r @ writeU32 p @ writeU32 len)"
| "toWriter X (ScryptResultPacket key) = Inr (writeVarBytes key)"

subsection \<open>fromRaw\<close>

text \<open>\<open>for (let i = 0; i < count; i++) { ... read one ...; push }\<close>\<close>

fun readN :: "nat \<Rightarrow> 'a reader \<Rightarrow> 'a list reader" where
  "readN 0 r = rreturn []"
| "readN (Suc n) r = rbind r (\<lambda>x. rbind (readN n r) (\<lambda>xs. rreturn (x # xs)))"

text \<open>\<open>br.readU8() === 1\<close>, and the flags read by the two verify packets.\<close>

definition read_bool :: "bool reader" where
  "read_bool = rbind readU8 (\<lambda>b. rreturn (b = 1))"

definition read_flags :: "int option reader" where
  "read_flags = rbind read32 (\<lambda>flags. rreturn (if flags = - 1 then None else Some flags))"

definition read_error :: "error_obj reader" where
  "read_error =
     rbind readVarString (\<lambda>m.
     rbind readVarString (\<lambda>s.
     rbind readVarString (\<lambda>t.
     rreturn \<lparr>err_message = JString m, err_stack = JString s, err_type = JString t\<rparr>)))"

text \<open>
  \<open>new EventPacket()\<close> sets \<open>items = []\<close> and \<open>json = JSON.stringify([])\<close>;
  \<open>fromRaw\<close> then replaces \<open>items\<close> only.
\<close>

definition EventPacket_fromRaw ::
    "('tx, 'view, 'ring, 'wit, 'json) ext \<Rightarrow> byte list \<Rightarrow> error + ('tx, 'view, 'ring, 'wit, 'json) packet" where
  "EventPacket_fromRaw X data =
     run (rbind readVarString (\<lambda>text.
          rbind (rlift (JSON_parse X text)) (\<lambda>items.
          rreturn (EventPacket items (JSON_stringify X []))))) data"

definition LogPacket_fromRaw ::
    "byte list \<Rightarrow> error + ('tx, 'view, 'ring, 'wit, 'json) packet" where
  "LogPacket_fromRaw data = run (rbind readVarString (\<lambda>text. rreturn (LogPacket text))) data"

definition ErrorPacket_fromRaw ::
    "byte list \<Rightarrow> error + ('tx, 'view, 'ring, 'wit, 'json) packet" where
  "ErrorPacket_fromRaw data = run (rbind read_error (\<lambda>e. rreturn (ErrorPacket e))) data"

definition ErrorResultPacket_fromRaw ::
    "byte list \<Rightarrow> error + ('tx, 'view, 'ring, 'wit, 'json) packet" where
  "ErrorResultPacket_fromRaw data =
     run (rbind read_error (\<lambda>e. rreturn (ErrorResultPacket e))) data"

definition VerifyPacket_fromRaw ::
    "('tx, 'view, 'ring, 'wit, 'json) ext \<Rightarrow> byte list \<Rightarrow> error + ('tx, 'view, 'ring, 'wit, 'json) packet" where
  "VerifyPacket_fromRaw X data =
     run (rbind (fromReader_of (TX X)) (\<lambda>tx.
          rbind (fromReader_of (CoinView X tx)) (\<lambda>view.
          rbind read_flags (\<lambda>flags.
          rreturn (VerifyPacket tx view flags))))) data"

definition VerifyResultPacket_fromRaw ::
    "byte list \<Rightarrow> error + ('tx, 'view, 'ring, 'wit, 'json) packet" where
  "VerifyResultPacket_fromRaw data =
     run (rbind read_bool (\<lambda>v. rreturn (VerifyResultPacket v))) data"

definition SignPacket_fromRaw ::
    "('tx, 'view, 'ring, 'wit, 'json) ext \<Rightarrow> byte list \<Rightarrow> error + ('tx, 'view, 'ring, 'wit, 'json) packet" where
  "SignPacket_fromRaw X data =
     run (rbind (fromReader_of (TX X)) (\<lambda>tx.
          rbind (fromReader_of (CoinView X tx)) (\<lambda>view.
          rbind readVarint (\<lambda>count.
          rbind (readN count (fromReader_of (KeyRing X))) (\<lambda>rings.
          rbind readU8 (\<lambda>type.
          rreturn (SignPacket \<lparr>mtx_tx = tx, mtx_view = view\<rparr> rings type))))))) data"

definition SignResultPacket_fromRaw ::
    "('tx, 'view, 'ring, 'wit, 'json) ext \<Rightarrow> byte list \<Rightarrow> error + ('tx, 'view, 'ring, 'wit, 'json) packet" where
  "SignResultPacket_fromRaw X data =
     run (rbind readVarint (\<lambda>tot.
          rbind readVarint (\<lambda>count.
          rbind (readN count
                  (rbind Script_fromReader (\<lambda>s.
                   rbind (fromReader_of (Witness X)) (\<lambda>w. rreturn (s, w))))) (\<lambda>pairs.
          rreturn (SignResultPacket tot (map snd pairs) (map fst pairs)))))) data"

definition read_coin :: "coin reader" where
  "read_coin =
     rbind readVarint (\<lambda>v.
     rbind Script_fromReader (\<lambda>s.
     rreturn \<lparr>coin_value = v, coin_script = s\<rparr>))"

definition VerifyInputPacket_fromRaw ::
    "('tx, 'view, 'ring, 'wit, 'json) ext \<Rightarrow> byte list \<Rightarrow> error + ('tx, 'view, 'ring, 'wit, 'json) packet" where
  "VerifyInputPacket_fromRaw X data =
     run (rbind (fromReader_of (TX X)) (\<lambda>tx.
          rbind readVarint (\<lambda>index.
          rbind read_coin (\<lambda>c.
          rbind read_flags (\<lambda>flags.
          rreturn (VerifyInputPacket tx index c flags)))))) data"

definition VerifyInputResultPacket_fromRaw ::
    "byte list \<Rightarrow> error + ('tx, 'view, 'ring, 'wit, 'json) packet" where
  "VerifyInputResultPacket_fromRaw data =
     run (rbind read_bool (\<lambda>v. rreturn (VerifyInputResultPacket v))) data"

definition SignInputPacket_fromRaw ::
    "('tx, 'view, 'ring, 'wit, 'json) ext \<Rightarrow> byte list \<Rightarrow> error + ('tx, 'view, 'ring, 'wit, 'json) packet" where
  "SignInputPacket_fromRaw X data =
     run (rbind (fromReader_of (TX X)) (\<lambda>tx.
          rbind readVarint (\<lambda>index.
          rbind read_coin (\<lambda>c.
          rbind (fromReader_of (KeyRing X)) (\<lambda>ring.
          rbind readU8 (\<lambda>type.
          rreturn (SignInputPacket tx index c ring type))))))) data"

definition SignInputResultPacket_fromRaw ::
    "('tx, 'view, 'ring, 'wit, 'json) ext \<Rightarrow> byte list \<Rightarrow> error + ('tx, 'view, 'ring, 'wit, 'json) packet" where
  "SignInputResultPacket_fromRaw X data =
     run (rbind read_bool (\<lambda>v.
          rbind Script_fromReader (\<lambda>s.
          rbind (fromReader_of (Witness X)) (\<lambda>w.
          rreturn (SignInputResultPacket v w s))))) data"

definition ECVerifyPacket_fromRaw ::
    "byte list \<Rightarrow> error + ('tx, 'view, 'ring, 'wit, 'json) packet" where
  "ECVerifyPacket_fromRaw data =
     run (rbind readVarBytes (\<lambda>msg.
          rbind readVarBytes (\<lambda>sig.
          rbind readVarBytes (\<lambda>key.
          rreturn (ECVerifyPacket msg sig key))))) data"

definition ECVerifyResultPacket_fromRaw ::
    "byte list \<Rightarrow> error + ('tx, 'view, 'ring, 'wit, 'json) packet" where
  "ECVerifyResultPacket_fromRaw data =
     run (rbind read_bool (\<lambda>v. rreturn (ECVerifyResultPacket v))) data"

definition ECSignPacket_fromRaw ::
    "byte list \<Rightarrow> error + ('tx, 'view, 'ring, 'wit, 'json) packet" where
  "ECSignPacket_fromRaw data =
     run (rbind readVarBytes (\<lambda>msg.
          rbind readVarBytes (\<lambda>key.
          rreturn (ECSignPacket msg key)))) data"

definition ECSignResultPacket_fromRaw ::
    "byte list \<Rightarrow> error + ('tx, 'view, 'ring, 'wit, 'json) packet" where
  "ECSignResultPacket_fromRaw data =
     run (rbind readVarBytes (\<lambda>sig. rreturn (ECSignResultPacket sig))) data"

definition MinePacket_fromRaw ::
    "byte list \<Rightarrow> error + ('tx, 'view, 'ring, 'wit, 'json) packet" where
  "MinePacket_fromRaw data =
     run (rbind (readBytes 80) (\<lambda>dat.
          rbind (readBytes 32) (\<lambda>target.
          rbind readU32 (\<lambda>mn.
          rbind readU32 (\<lambda>mx.
          rreturn (MinePacket dat target mn mx)))))) data"

text \<open>\<open>if ((packet.nonce >> 0) === -1) packet.nonce = -1;\<close>\<close>

definition MineResultPacket_fromRaw ::
    "byte list \<Rightarrow> error + ('tx, 'view, 'ring, 'wit, 'json) packet" where
  "MineResultPacket_fromRaw data =
     run (rbind readU32 (\<lambda>nonce.
          rreturn (MineResultPacket (if to_int32 nonce = - 1 then - 1 else nonce)))) data"

definition ScryptPacket_fromRaw ::
    "byte list \<Rightarrow> error + ('tx, 'view, 'ring, 'wit, 'json) packet" where
  "ScryptPacket_fromRaw data =
     run (rbind readVarBytes (\<lambda>passwd.
          rbind readVarBytes (\<lambda>salt.
          rbind readU32 (\<lambda>N.
          rbind readU32 (\<lambda>r.
          rbind readU32 (\<lambda>p.
          rbind readU32 (\<lambda>len.
          rreturn (ScryptPacket passwd salt N r p len)))))))) data"

definition ScryptResultPacket_fromRaw ::
    "byte list \<Rightarrow> error + ('tx, 'view, 'ring, 'wit, 'json) packet" where
  "ScryptResultPacket_fromRaw data =
     run (rbind readVarBytes (\<lambda>key. rreturn (ScryptResultPacket key))) data"

subsection \<open>Dispatch on the command code\<close>

text \<open>
  Modelled from the spec: the registry of section 4.3, which maps a command code to the
  decode routine of its variant (the parser that does so is not among the sources); "an
  unrecognized command code is a protocol error".
\<close>

definition decode ::
    "('tx, 'view, 'ring, 'wit, 'json) ext \<Rightarrow> nat \<Rightarrow> byte list \<Rightarrow> error + ('tx, 'view, 'ring, 'wit, 'json) packet" where
  "decode X c data =
     (if c = 0 then EventPacket_fromRaw X data
      else if c = 1 then LogPacket_fromRaw data
      else if c = 2 then ErrorPacket_fromRaw data
      else if c = 3 then ErrorResultPacket_fromRaw data
      else if c = 4 then VerifyPacket_fromRaw X data
      else if c = 5 then VerifyResultPacket_fromRaw data
      else if c = 6 then SignPacket_fromRaw X data
      else if c = 7 then SignResultPacket_fromRaw X data
      else if c = 8 then VerifyInputPacket_fromRaw X data
      else if c = 9 then VerifyInputResultPacket_fromRaw data
      else if c = 10 then SignInputPacket_fromRaw X data
      else if c = 11 then SignInputResultPacket_fromRaw X data
      else if c = 12 then ECVerifyPacket_fromRaw data
      else if c = 13 then ECVerifyResultPacket_fromRaw data
      else if c = 14 then ECSignPacket_fromRaw data
      else if c = 15 then ECSignResultPacket_fromRaw data
      else if c = 16 then MinePacket_fromRaw data
      else if c = 17 then MineResultPacket_fromRaw data
      else if c = 18 then ScryptPacket_fromRaw data
      else if c = 19 then ScryptResultPacket_fromRaw data
      else Inl UnknownCommand)"

section \<open>Injecting a sign result into a transaction\<close>

text \<open>
  \<open>inject\<close> writes into \<open>tx.inputs[i].script\<close> and \<open>tx.inputs[i].witness\<close>; a
  transaction is modelled by its inputs and an input by these two fields (both records
  are extensible, the other fields ride along untouched). The result is what the call
  did (returned, or the error it raised) and the transaction after it.
\<close>

record 'wit input =
  input_script :: script
  input_witness :: 'wit

record 'inp tx_obj =
  tx_inputs :: "'inp list"

text \<open>
  \<^verbatim>\<open>for (let i = 0; i < tx.inputs.length; i++) {
    let input = tx.inputs[i];
    input.script = this.script[i];
    input.witness = this.witness[i];
  }\<close>
  It runs after both assertions, so \<open>script ! i\<close> and \<open>witness ! i\<close> are in range.
\<close>

function inject_loop :: "script list \<Rightarrow> 'wit list \<Rightarrow> nat \<Rightarrow>
    ('wit, 'm) input_scheme list \<Rightarrow> ('wit, 'm) input_scheme list" where
  "inject_loop script witness i inputs =
     (if i < length inputs
      then inject_loop script witness (i + 1)
             (inputs[i := (inputs ! i)\<lparr>input_script := script ! i, input_witness := witness ! i\<rparr>])
      else inputs)"
  by pat_completeness auto
termination
  by (relation "measure (\<lambda>(script, witness, i, inputs). length inputs - i)") auto

text \<open>A packet of another class has no \<open>inject\<close> method.\<close>

fun SignResultPacket_inject :: "('tx, 'view, 'ring, 'wit, 'json) packet \<Rightarrow>
    (('wit, 'm) input_scheme, 't) tx_obj_scheme \<Rightarrow>
    (error + unit) \<times> (('wit, 'm) input_scheme, 't) tx_obj_scheme" where
  "SignResultPacket_inject (SignResultPacket tot witness script) tx =
     (if length script \<noteq> length (tx_inputs tx) then (Inl AssertionError, tx)
      else if length witness \<noteq> length (tx_inputs tx) then (Inl AssertionError, tx)
      else (Inr (), tx\<lparr>tx_inputs := inject_loop script witness 0 (tx_inputs tx)\<rparr>))"
| "SignResultPacket_inject p tx = (Inl TypeError, tx)"

text \<open>
  \<^verbatim>\<open>let input = tx.inputs[i]; assert(input); input.script = ...; input.witness = ...;\<close>
  \<open>tx.inputs[i]\<close> is \<open>undefined\<close> unless \<open>i\<close> is an index of the array.
\<close>

fun SignInputResultPacket_inject :: "('tx, 'view, 'ring, 'wit, 'json) packet \<Rightarrow>
    (('wit, 'm) input_scheme, 't) tx_obj_scheme \<Rightarrow> int \<Rightarrow>
    (error + unit) \<times> (('wit, 'm) input_scheme, 't) tx_obj_scheme" where
  "SignInputResultPacket_inject (SignInputResultPacket v witness script) tx i =
     (if 0 \<le> i \<and> nat i < length (tx_inputs tx)
      then (Inr (), tx\<lparr>tx_inputs := (tx_inputs tx)
              [nat i := (tx_inputs tx ! nat i)\<lparr>input_script := script, input_witness := witness\<rparr>]\<rparr>)
      else (Inl AssertionError, tx))"
| "SignInputResultPacket_inject p tx i = (Inl TypeError, tx)"

section \<open>Specification vocabulary\<close>

text \<open>
  \<open>reads r bs x\<close>: on the bytes \<open>bs\<close>, followed by anything, the reader \<open>r\<close> gives \<open>x\<close>
  and leaves what followed. \<open>cuts r bs\<close>: on every proper prefix of \<open>bs\<close> the reader
  fails with a framing error.
\<close>

definition reads :: "'a reader \<Rightarrow> byte list \<Rightarrow> 'a \<Rightarrow> bool" where
  "reads r bs x \<longleftrightarrow> (\<forall>rest. r (bs @ rest) = Inr (x, rest))"

definition cuts :: "'a reader \<Rightarrow> byte list \<Rightarrow> bool" where
  "cuts r bs \<longleftrightarrow> (\<forall>n<length bs. r (take n bs) = Inl FramingError)"

definition parses :: "'a reader \<Rightarrow> byte list \<Rightarrow> 'a \<Rightarrow> bool" where
  "parses r bs x \<longleftrightarrow> reads r bs x \<and> cuts r bs"

text \<open>The same of a \<open>fromRaw\<close>, which returns the value alone.\<close>

definition decodes :: "(byte list \<Rightarrow> error + 'a) \<Rightarrow> byte list \<Rightarrow> 'a \<Rightarrow> bool" where
  "decodes f bs x \<longleftrightarrow>
     (\<forall>rest. f (bs @ rest) = Inr x) \<and> (\<forall>n<length bs. f (take n bs) = Inl FramingError)"

text \<open>
  What the packets need of a class they carry: its size is the number of bytes it writes,
  its reader gives back the value written and stops there, and fails with a framing error
  on a truncated value. For JSON: parsing the text of a list of items gives the items.
\<close>

definition codec_ok :: "'a codec \<Rightarrow> bool" where
  "codec_ok c \<longleftrightarrow>
     (\<forall>x. length (toWriter_of c x) = getSize_of c x
        \<and> reads (fromReader_of c) (toWriter_of c x) x
        \<and> cuts (fromReader_of c) (toWriter_of c x))"

definition ext_ok :: "('tx, 'view, 'ring, 'wit, 'json) ext \<Rightarrow> bool" where
  "ext_ok X \<longleftrightarrow>
     codec_ok (TX X) \<and> (\<forall>tx. codec_ok (CoinView X tx)) \<and> codec_ok (KeyRing X)
     \<and> codec_ok (Witness X)
     \<and> (\<forall>items. JSON_parse X (JSON_stringify X items) = Inr items)"

text \<open>The part of this that the sizes rest on.\<close>

definition size_ok :: "'a codec \<Rightarrow> bool" where
  "size_ok c \<longleftrightarrow> (\<forall>x. length (toWriter_of c x) = getSize_of c x)"

definition ext_sized :: "('tx, 'view, 'ring, 'wit, 'json) ext \<Rightarrow> bool" where
  "ext_sized X \<longleftrightarrow>
     size_ok (TX X) \<and> (\<forall>tx. size_ok (CoinView X tx)) \<and> size_ok (KeyRing X)
     \<and> size_ok (Witness X)"

text \<open>
  The shape the data model (section 3) gives two of the packets: a mine packet holds an
  80-byte header and a 32-byte target; the script and witness arrays of a sign result are
  of equal length. Nothing in packets.js checks the first; \<open>toWriter\<close> asserts the
  second.
\<close>

fun well_shaped :: "('tx, 'view, 'ring, 'wit, 'json) packet \<Rightarrow> bool" where
  "well_shaped (SignResultPacket tot witness script) = (length script = length witness)"
| "well_shaped (MinePacket dat target mn mx) = (length dat = 80 \<and> length target = 32)"
| "well_shaped p = True"

text \<open>A length that the 8-byte form of the variable-length integer holds (any buffer's is).\<close>

definition vlen :: "'a list \<Rightarrow> bool" where
  "vlen xs \<longleftrightarrow> length xs < 2 ^ 64"

text \<open>
  A well-formed packet: one of that shape whose event \<open>json\<close> is the text of its items,
  as the constructor leaves it, and whose buffers, strings and arrays have lengths that a
  variable-length integer holds. Numbers are not restricted.
\<close>

fun wf_packet :: "('tx, 'view, 'ring, 'wit, 'json) ext \<Rightarrow>
    ('tx, 'view, 'ring, 'wit, 'json) packet \<Rightarrow> bool" where
  "wf_packet X (EventPacket items json) = (json = JSON_stringify X items \<and> vlen json)"
| "wf_packet X (LogPacket text) = vlen text"
| "wf_packet X (ErrorPacket e) =
     (vlen (js_to_string (err_message e)) \<and> vlen (js_to_string (err_stack e))
      \<and> vlen (js_or_empty (err_type e)))"
| "wf_packet X (ErrorResultPacket e) =
     (vlen (js_to_string (err_message e)) \<and> vlen (js_to_string (err_stack e))
      \<and> vlen (js_or_empty (err_type e)))"
| "wf_packet X (SignPacket tx rings type) = vlen rings"
| "wf_packet X (SignResultPacket tot witness script) =
     (length script = length witness \<and> vlen script \<and> list_all vlen script)"
| "wf_packet X (VerifyInputPacket tx index c flags) = vlen (coin_script c)"
| "wf_packet X (SignInputPacket tx index c ring type) = vlen (coin_script c)"
| "wf_packet X (SignInputResultPacket v witness script) = vlen script"
| "wf_packet X (ECVerifyPacket msg sig key) = (vlen msg \<and> vlen sig \<and> vlen key)"
| "wf_packet X (ECSignPacket msg key) = (vlen msg \<and> vlen key)"
| "wf_packet X (ECSignResultPacket sig) = vlen sig"
| "wf_packet X (MinePacket dat target mn mx) = (length dat = 80 \<and> length target = 32)"
| "wf_packet X (ScryptPacket passwd salt N r p len) = (vlen passwd \<and> vlen salt)"
| "wf_packet X (ScryptResultPacket key) = vlen key"
| "wf_packet X p = True"

text \<open>
  What decoding makes of a written packet, field by field: a number comes back reduced to
  its field (\<open>mod 2^32\<close>, \<open>mod 2^8\<close>, \<open>mod 2^64\<close> for the longest variable-length
  form), flags come back as \<open>null\<close> when their bit pattern is that of -1, a nonce as -1
  when its bit pattern is that of -1, an error's properties as the strings written for
  them, and an event packet with the \<open>json\<close> of a fresh packet.
\<close>

definition decoded_flags :: "int option \<Rightarrow> int option" where
  "decoded_flags flags =
     (let v = to_int32 ((case flags of Some f \<Rightarrow> f | None \<Rightarrow> - 1) mod 2 ^ 32)
      in if v = - 1 then None else Some v)"

definition decoded_error :: "error_obj \<Rightarrow> error_obj" where
  "decoded_error e =
     \<lparr>err_message = JString (js_to_string (err_message e)),
      err_stack = JString (js_to_string (err_stack e)),
      err_type = JString (js_or_empty (err_type e))\<rparr>"

definition decoded_coin :: "coin \<Rightarrow> coin" where
  "decoded_coin c = \<lparr>coin_value = coin_value c mod 2 ^ 64, coin_script = coin_script c\<rparr>"

fun decoded :: "('tx, 'view, 'ring, 'wit, 'json) ext \<Rightarrow>
    ('tx, 'view, 'ring, 'wit, 'json) packet \<Rightarrow> ('tx, 'view, 'ring, 'wit, 'json) packet" where
  "decoded X (EventPacket items json) = EventPacket items (JSON_stringify X [])"
| "decoded X (ErrorPacket e) = ErrorPacket (decoded_error e)"
| "decoded X (ErrorResultPacket e) = ErrorResultPacket (decoded_error e)"
| "decoded X (VerifyPacket tx view flags) = VerifyPacket tx view (decoded_flags flags)"
| "decoded X (SignPacket tx rings type) = SignPacket tx rings (type mod 2 ^ 8)"
| "decoded X (SignResultPacket tot witness script) =
     SignResultPacket (tot mod 2 ^ 64) witness script"
| "decoded X (VerifyInputPacket tx index c flags) =
     VerifyInputPacket tx (index mod 2 ^ 64) (decoded_coin c) (decoded_flags flags)"
| "decoded X (SignInputPacket tx index c ring type) =
     SignInputPacket tx (index mod 2 ^ 64) (decoded_coin c) ring (type mod 2 ^ 8)"
| "decoded X (MinePacket dat target mn mx) =
     MinePacket dat target (mn mod 2 ^ 32) (mx mod 2 ^ 32)"
| "decoded X (MineResultPacket nonce) =
     MineResultPacket (if to_int32 (nonce mod 2 ^ 32) = - 1 then - 1 else nonce mod 2 ^ 32)"
| "decoded X (ScryptPacket passwd salt N r p len) =
     ScryptPacket passwd salt (N mod 2 ^ 32) (r mod 2 ^ 32) (p mod 2 ^ 32) (len mod 2 ^ 32)"
| "decoded X p = p"

text \<open>
  The values that come back as they were: every number within its field, no flags and
  no nonce with the bit pattern of the sentinel -1 other than the sentinel itself (for
  flags: \<open>null\<close>), no mine or scrypt number left at the constructor's default -1, and an
  error whose three properties are strings.
\<close>

definition u32 :: "int \<Rightarrow> bool" where
  "u32 v \<longleftrightarrow> 0 \<le> v \<and> v < 2 ^ 32"

definition u8 :: "int \<Rightarrow> bool" where
  "u8 v \<longleftrightarrow> 0 \<le> v \<and> v < 2 ^ 8"

definition u64 :: "nat \<Rightarrow> bool" where
  "u64 v \<longleftrightarrow> v < 2 ^ 64"

fun valid_flags :: "int option \<Rightarrow> bool" where
  "valid_flags None = True"
| "valid_flags (Some f) = (- (2 ^ 31) \<le> f \<and> f < 2 ^ 31 \<and> f \<noteq> - 1)"

fun is_string :: "jsval \<Rightarrow> bool" where
  "is_string (JString s) = True"
| "is_string v = False"

definition valid_error :: "error_obj \<Rightarrow> bool" where
  "valid_error e \<longleftrightarrow>
     is_string (err_message e) \<and> is_string (err_stack e) \<and> is_string (err_type e)"

fun valid_values :: "('tx, 'view, 'ring, 'wit, 'json) packet \<Rightarrow> bool" where
  "valid_values (ErrorPacket e) = valid_error e"
| "valid_values (ErrorResultPacket e) = valid_error e"
| "valid_values (VerifyPacket tx view flags) = valid_flags flags"
| "valid_values (SignPacket tx rings type) = u8 type"
| "valid_values (SignResultPacket tot witness script) = u64 tot"
| "valid_values (VerifyInputPacket tx index c flags) =
     (u64 index \<and> u64 (coin_value c) \<and> valid_flags flags)"
| "valid_values (SignInputPacket tx index c ring type) =
     (u64 index \<and> u64 (coin_value c) \<and> u8 type)"
| "valid_values (MinePacket dat target mn mx) = (u32 mn \<and> u32 mx)"
| "valid_values (MineResultPacket nonce) = (nonce = - 1 \<or> (0 \<le> nonce \<and> nonce < 2 ^ 32 - 1))"
| "valid_values (ScryptPacket passwd salt N r p len) = (u32 N \<and> u32 r \<and> u32 p \<and> u32 len)"
| "valid_values p = True"

text \<open>Equal but for the \<open>json\<close> an event packet holds.\<close>

definition same_fields :: "('tx, 'view, 'ring, 'wit, 'json) packet \<Rightarrow>
    ('tx, 'view, 'ring, 'wit, 'json) packet \<Rightarrow> bool" where
  "same_fields p q =
     (case p of
        EventPacket items json \<Rightarrow>
          (case q of EventPacket items' json' \<Rightarrow> items' = items | _ \<Rightarrow> False)
      | _ \<Rightarrow> q = p)"

section \<open>A small instance\<close>

text \<open>
  Classes to try the packets on: a carried object is one byte, written as such; the JSON
  text of a list of characters is the list in brackets.
\<close>

definition byte_codec :: "byte codec" where
  "byte_codec =
     \<lparr>getSize_of = (\<lambda>b. 1),
      toWriter_of = (\<lambda>b. [b]),
      fromReader_of = (\<lambda>data. case data of [] \<Rightarrow> Inl FramingError | b # rest \<Rightarrow> Inr (b, rest))\<rparr>"

definition bracket_parse :: "string \<Rightarrow> error + char list" where
  "bracket_parse s =
     (case s of
        [] \<Rightarrow> Inl SyntaxError
      | c # rest \<Rightarrow>
          if c = CHR ''['' \<and> rest \<noteq> [] \<and> last rest = CHR '']''
          then Inr (butlast rest) else Inl SyntaxError)"

definition X0 :: "(byte, byte, byte, byte, char) ext" where
  "X0 =
     \<lparr>TX = byte_codec, CoinView = (\<lambda>tx. byte_codec), KeyRing = byte_codec,
      Witness = byte_codec,
      JSON_stringify = (\<lambda>items. ''['' @ items @ '']''),
      JSON_parse = bracket_parse\<rparr>"

text \<open>Packets and a transaction to try the properties on.\<close>

definition tx0 :: "(byte input) tx_obj" where
  "tx0 = \<lparr>tx_inputs = [\<lparr>input_script = [1], input_witness = 2\<rparr>,
                        \<lparr>input_script = [3], input_witness = 4\<rparr>]\<rparr>"

definition mine0 :: "(byte, byte, byte, byte, char) packet" where
  "mine0 = MinePacket (replicate 80 0) (replicate 32 0xff) 0 0xffffffff"

definition sign_result0 :: "(byte, byte, byte, byte, char) packet" where
  "sign_result0 = SignResultPacket 1 [5, 6] [[1, 2], []]"

definition event0 :: "(byte, byte, byte, byte, char) packet" where
  "event0 = EventPacket ''hi'' ''[hi]''"

definition coin0 :: coin where
  "coin0 = \<lparr>coin_value = 5000000000, coin_script = replicate 25 0x76\<rparr>"

definition verify_input0 :: "(byte, byte, byte, byte, char) packet" where
  "verify_input0 = VerifyInputPacket 9 0 coin0 None"

definition error0 :: error_obj where
  "error0 = \<lparr>err_message = JString ''a'', err_stack = JUndefined, err_type = JNull\<rparr>"

section \<open>Properties\<close>

subsection \<open>Little-endian integers\<close>

lemma length_le_bytes: "length (le_bytes k v) = k"
  by (induction k arbitrary: v) simp_all

lemma le_nat_le_bytes: "le_nat (le_bytes k v) = v mod 256 ^ k"
proof (induction k arbitrary: v)
  case 0
  show ?case by simp
next
  case (Suc k)
  have "unat (of_nat (v mod 256) :: byte) = v mod 256"
    by (simp add: unat_of_nat)
  then show ?case
    using Suc.IH [of "v div 256"] by (simp add: mod_mult2_eq)
qed

lemma le_bytes_numeral:
  "le_bytes (numeral k) v = of_nat (v mod 256) # le_bytes (pred_numeral k) (v div 256)"
proof -
  have "le_bytes (Suc (pred_numeral k)) v
      = of_nat (v mod 256) # le_bytes (pred_numeral k) (v div 256)"
    by (rule le_bytes.simps)
  then show ?thesis
    by (simp only: numeral_eq_Suc [symmetric])
qed

lemma le_bytes_1: "le_bytes 1 v = [of_nat (v mod 256)]"
  by simp

lemma le_bytes_4_max: "le_bytes 4 4294967295 = [0xff, 0xff, 0xff, 0xff]"
  by (simp add: le_bytes_numeral)

subsection \<open>Sequencing readers\<close>

lemma parsesI:
  assumes "\<And>rest. r (bs @ rest) = Inr (x, rest)"
    and "\<And>n. n < length bs \<Longrightarrow> r (take n bs) = Inl FramingError"
  shows "parses r bs x"
  using assms by (simp add: parses_def reads_def cuts_def)

lemma parses_app: "parses r bs x \<Longrightarrow> r (bs @ rest) = Inr (x, rest)"
  by (simp add: parses_def reads_def)

lemma parses_take: "parses r bs x \<Longrightarrow> n < length bs \<Longrightarrow> r (take n bs) = Inl FramingError"
  by (simp add: parses_def cuts_def)

lemma parses_return: "parses (rreturn x) [] x"
  by (rule parsesI) (simp_all add: rreturn_def)

lemma parses_rlift: "parses (rlift (Inr x)) [] x"
  by (rule parsesI) (simp_all add: rlift_def)

lemma parses_bind:
  assumes r: "parses r bs x" and f: "parses (f x) cs y"
  shows "parses (rbind r f) (bs @ cs) y"
proof (rule parsesI)
  fix rest
  show "rbind r f ((bs @ cs) @ rest) = Inr (y, rest)"
    using parses_app [OF r, of "cs @ rest"] parses_app [OF f, of rest]
    by (simp add: rbind_def)
next
  fix n
  assume n: "n < length (bs @ cs)"
  show "rbind r f (take n (bs @ cs)) = Inl FramingError"
  proof (cases "n < length bs")
    case True
    then show ?thesis
      using parses_take [OF r, of n] by (simp add: rbind_def)
  next
    case False
    then have "take n (bs @ cs) = bs @ take (n - length bs) cs"
      by simp
    moreover have "n - length bs < length cs"
      using n False by simp
    ultimately show ?thesis
      using parses_app [OF r, of "take (n - length bs) cs"]
        parses_take [OF f, of "n - length bs"]
      by (simp add: rbind_def)
  qed
qed

lemma parses_bind_nil:
  "parses r bs x \<Longrightarrow> parses (f x) [] y \<Longrightarrow> parses (rbind r f) bs y"
  using parses_bind [of r bs x f "[]" y] by simp

lemma parses_bind_return:
  "parses r bs x \<Longrightarrow> parses (rbind r (\<lambda>a. rreturn (g a))) bs (g x)"
  by (rule parses_bind_nil [where x = x]) (simp_all add: parses_return)

lemma parses_run: "parses r bs x \<Longrightarrow> decodes (run r) bs x"
  by (simp add: decodes_def run_def parses_def reads_def cuts_def)

lemma decodes_runI:
  assumes "\<And>data. f data = run r data" and "parses r bs x"
  shows "decodes f bs x"
proof -
  have "f = run r" using assms(1) by (rule ext)
  then show ?thesis using parses_run [OF assms(2)] by simp
qed

lemma decodesD:
  assumes "decodes f bs x"
  shows "f bs = Inr x" "f (bs @ extra) = Inr x" "n < length bs \<Longrightarrow> f (take n bs) = Inl FramingError"
  using assms by (simp_all add: decodes_def) (metis append_Nil2)

lemma parses_readN:
  assumes "\<And>x. x \<in> set xs \<Longrightarrow> parses r (w x) x"
  shows "parses (readN (length xs) r) (concat (map w xs)) xs"
  using assms
proof (induction xs)
  case Nil
  show ?case by (simp add: parses_return)
next
  case (Cons x xs)
  have tl: "parses (rbind (readN (length xs) r) (\<lambda>ys. rreturn (x # ys))) (concat (map w xs)) (x # xs)"
    by (rule parses_bind_return) (simp add: Cons)
  have "parses (rbind r (\<lambda>x. rbind (readN (length xs) r) (\<lambda>ys. rreturn (x # ys))))
          (w x @ concat (map w xs)) (x # xs)"
    by (rule parses_bind [where x = x]) (simp_all add: Cons.prems tl)
  then show ?case by simp
qed

subsection \<open>The primitives read what they write\<close>

lemma parses_readBytes: "length v = n \<Longrightarrow> parses (readBytes n) (writeBytes v) v"
  by (rule parsesI) (auto simp: readBytes_def writeBytes_def)

lemma parses_le:
  "parses (rbind (readBytes k) (\<lambda>bs. rreturn (g (le_nat bs)))) (le_bytes k v) (g (v mod 256 ^ k))"
proof -
  have "parses (readBytes k) (writeBytes (le_bytes k v)) (le_bytes k v)"
    by (rule parses_readBytes) (rule length_le_bytes)
  from parses_bind_return [OF this, of "\<lambda>bs. g (le_nat bs)"]
  show ?thesis by (simp add: writeBytes_def le_nat_le_bytes)
qed

lemma parses_readU8: "parses readU8 (writeU8 v) (v mod 2 ^ 8)"
  using parses_le [of 1 int "nat (v mod 2 ^ 8)"]
  by (simp add: readU8_def writeU8_def)

lemma parses_readU32: "parses readU32 (writeU32 v) (v mod 2 ^ 32)"
  using parses_le [of 4 int "nat (v mod 2 ^ 32)"]
  by (simp add: readU32_def writeU32_def)

lemma parses_read32: "parses read32 (write32 v) (to_int32 (v mod 2 ^ 32))"
  using parses_le [of 4 "\<lambda>n. to_int32 (int n)" "nat (v mod 2 ^ 32)"]
  by (simp add: read32_def write32_def)

lemma parses_one: "parses (readBytes 1) [b] [b]"
  using parses_readBytes [of "[b]" 1] by (simp add: writeBytes_def)

lemma parses_readVarint: "parses readVarint (writeVarint n) (n mod 2 ^ 64)"
proof -
  consider (a) "n < 0xfd" | (b) "0xfd \<le> n" "n \<le> 0xffff"
    | (c) "0xffff < n" "n \<le> 0xffffffff" | (d) "0xffffffff < n"
    by linarith
  then show ?thesis
  proof cases
    case a
    have u: "unat (of_nat n :: byte) = n"
      using a by (simp add: unat_of_nat)
    have "unat (of_nat n :: byte) \<noteq> unat (0xff :: byte)"
      "unat (of_nat n :: byte) \<noteq> unat (0xfe :: byte)"
      "unat (of_nat n :: byte) \<noteq> unat (0xfd :: byte)"
      using a unfolding u by simp_all
    then have ne: "(of_nat n :: byte) \<noteq> 0xff" "(of_nat n :: byte) \<noteq> 0xfe" "(of_nat n :: byte) \<noteq> 0xfd"
      by fastforce+
    have v: "unat (of_nat n :: byte) = n mod 2 ^ 64"
      using a by (simp add: u)
    have "parses (rbind (readBytes 1) (\<lambda>m.
       if m = [0xff] then rbind (readBytes 8) (\<lambda>bs. rreturn (le_nat bs))
       else if m = [0xfe] then rbind (readBytes 4) (\<lambda>bs. rreturn (le_nat bs))
       else if m = [0xfd] then rbind (readBytes 2) (\<lambda>bs. rreturn (le_nat bs))
       else rreturn (le_nat m))) [of_nat n] (n mod 2 ^ 64)"
      by (rule parses_bind_nil [OF parses_one]) (simp add: ne v parses_return)
    then show ?thesis
      using a by (simp add: readVarint_def writeVarint_def)
  next
    case b
    have "parses (rbind (readBytes 1) (\<lambda>m.
       if m = [0xff] then rbind (readBytes 8) (\<lambda>bs. rreturn (le_nat bs))
       else if m = [0xfe] then rbind (readBytes 4) (\<lambda>bs. rreturn (le_nat bs))
       else if m = [0xfd] then rbind (readBytes 2) (\<lambda>bs. rreturn (le_nat bs))
       else rreturn (le_nat m))) ([0xfd] @ le_bytes 2 n) (n mod 256 ^ 2)"
      by (rule parses_bind [OF parses_one]) (use parses_le [of 2 "\<lambda>x. x" n] in simp)
    then show ?thesis
      using b by (simp add: readVarint_def writeVarint_def)
  next
    case c
    have "parses (rbind (readBytes 1) (\<lambda>m.
       if m = [0xff] then rbind (readBytes 8) (\<lambda>bs. rreturn (le_nat bs))
       else if m = [0xfe] then rbind (readBytes 4) (\<lambda>bs. rreturn (le_nat bs))
       else if m = [0xfd] then rbind (readBytes 2) (\<lambda>bs. rreturn (le_nat bs))
       else rreturn (le_nat m))) ([0xfe] @ le_bytes 4 n) (n mod 256 ^ 4)"
      by (rule parses_bind [OF parses_one]) (use parses_le [of 4 "\<lambda>x. x" n] in simp)
    then show ?thesis
      using c by (simp add: readVarint_def writeVarint_def)
  next
    case d
    have "parses (rbind (readBytes 1) (\<lambda>m.
       if m = [0xff] then rbind (readBytes 8) (\<lambda>bs. rreturn (le_nat bs))
       else if m = [0xfe] then rbind (readBytes 4) (\<lambda>bs. rreturn (le_nat bs))
       else if m = [0xfd] then rbind (readBytes 2) (\<lambda>bs. rreturn (le_nat bs))
       else rreturn (le_nat m))) ([0xff] @ le_bytes 8 n) (n mod 256 ^ 8)"
      by (rule parses_bind [OF parses_one]) (use parses_le [of 8 "\<lambda>x. x" n] in simp)
    then show ?thesis
      using d by (simp add: readVarint_def writeVarint_def)
  qed
qed

text \<open>The four forms of the variable-length integer, at their boundaries.\<close>

lemma writeVarint_examples:
  "writeVarint 0 = [0x00]"
  "writeVarint 252 = [0xfc]"
  "writeVarint 253 = [0xfd, 0xfd, 0x00]"
  "writeVarint 65535 = [0xfd, 0xff, 0xff]"
  "writeVarint 65536 = [0xfe, 0x00, 0x00, 0x01, 0x00]"
  "writeVarint 5000000000 = [0xff, 0x00, 0xf2, 0x05, 0x2a, 0x01, 0x00, 0x00, 0x00]"
  by (simp_all add: writeVarint_def le_bytes_numeral)

lemma readVarint_examples:
  "readVarint [0xfc, 7] = Inr (252, [7])"
  "readVarint [0xfd, 0xfd, 0x00, 7] = Inr (253, [7])"
  "readVarint [0xfd, 0xfd] = Inl FramingError"
  "readVarint [] = Inl FramingError"
  by (simp_all add: readVarint_def rbind_def readBytes_def rreturn_def)

lemma parses_readVarint_length:
  "vlen v \<Longrightarrow> parses readVarint (writeVarint (length v)) (length v)"
  using parses_readVarint [of "length v"] by (simp add: vlen_def)

lemma parses_readVarBytes: "vlen v \<Longrightarrow> parses readVarBytes (writeVarBytes v) v"
  unfolding readVarBytes_def writeVarBytes_def
  by (rule parses_bind [OF parses_readVarint_length]) (simp_all add: parses_readBytes)

lemma utf8_string_bytes: "utf8_string (utf8_bytes s) = s"
  by (induction s) (simp_all add: utf8_string_def utf8_bytes_def unat_of_nat)

lemma length_utf8_bytes: "length (utf8_bytes s) = length s"
  by (simp add: utf8_bytes_def)

lemma parses_readVarString: "vlen s \<Longrightarrow> parses readVarString (writeVarString s) s"
proof -
  assume "vlen s"
  then have n: "vlen (utf8_bytes s)"
    by (simp add: vlen_def length_utf8_bytes)
  have "parses (rbind (readBytes (length (utf8_bytes s))) (\<lambda>bs. rreturn (utf8_string bs)))
          (writeBytes (utf8_bytes s)) (utf8_string (utf8_bytes s))"
    by (rule parses_bind_return) (simp add: parses_readBytes)
  then show ?thesis
    unfolding readVarString_def writeVarString_def
    by (intro parses_bind [OF parses_readVarint_length [OF n]]) (simp add: utf8_string_bytes)
qed

lemma parses_read_bool: "parses read_bool (write_bool v) v"
proof -
  have "parses (rbind readU8 (\<lambda>b. rreturn (b = 1))) (writeU8 (if v then 1 else 0))
          ((if v then 1 else 0) mod 2 ^ 8 = (1::int))"
    by (rule parses_bind_return [OF parses_readU8])
  then show ?thesis
    by (simp add: read_bool_def write_bool_def split: if_splits)
qed

lemma parses_read_flags: "parses read_flags (write_flags flags) (decoded_flags flags)"
  unfolding read_flags_def write_flags_def decoded_flags_def Let_def
  by (rule parses_bind_return [OF parses_read32])

lemma parses_Script: "vlen s \<Longrightarrow> parses Script_fromReader (Script_toWriter s) s"
  by (simp add: Script_fromReader_def Script_toWriter_def parses_readVarBytes)

lemma parses_read_coin:
  assumes "vlen (coin_script c)"
  shows "parses read_coin (writeVarint (coin_value c) @ Script_toWriter (coin_script c))
           (decoded_coin c)"
  unfolding read_coin_def decoded_coin_def
  by (rule parses_bind [OF parses_readVarint])
     (rule parses_bind_return [OF parses_Script [OF assms]])

lemma parses_read_error:
  assumes "vlen (js_to_string (err_message e))" "vlen (js_to_string (err_stack e))"
    "vlen (js_or_empty (err_type e))"
  shows "parses read_error
           (writeVarString (js_to_string (err_message e))
            @ writeVarString (js_to_string (err_stack e))
            @ writeVarString (js_or_empty (err_type e)))
           (decoded_error e)"
  unfolding read_error_def decoded_error_def
  by (rule parses_bind [OF parses_readVarString [OF assms(1)]],
      rule parses_bind [OF parses_readVarString [OF assms(2)]],
      rule parses_bind_return [OF parses_readVarString [OF assms(3)]])

lemma read_bool_byte: "read_bool (b # rest) = Inr (b = 1, rest)"
proof -
  have "(int (unat b) = 1) = (unat b = 1)"
    by (rule of_nat_eq_1_iff)
  also have "\<dots> = (b = 1)"
    by (simp add: word_unat_eq_iff)
  finally have "(int (unat b) = 1) = (b = 1)" .
  then show ?thesis
    by (simp add: read_bool_def readU8_def rbind_def readBytes_def rreturn_def)
qed

lemma run_bind_return_Inr:
  "run (rbind r (\<lambda>x. rreturn (g x))) data = Inr p \<Longrightarrow> \<exists>x rest. r data = Inr (x, rest) \<and> p = g x"
  by (auto simp: run_def rbind_def rreturn_def split: sum.splits prod.splits)

lemma read_error_strings:
  "read_error data = Inr (e, rest) \<Longrightarrow>
     \<exists>m s t. e = \<lparr>err_message = JString m, err_stack = JString s, err_type = JString t\<rparr>"
  by (auto simp: read_error_def rbind_def rreturn_def split: sum.splits prod.splits)

lemma writeU32_minus1: "writeU32 (- 1) = [0xff, 0xff, 0xff, 0xff]"
  by (simp add: writeU32_def le_bytes_4_max)

lemma write_flags_None: "write_flags None = [0xff, 0xff, 0xff, 0xff]"
  by (simp add: write_flags_def write32_def le_bytes_4_max)

subsection \<open>The carried classes and the small instance\<close>

lemma codec_parses: "codec_ok c \<Longrightarrow> parses (fromReader_of c) (toWriter_of c x) x"
  by (simp add: codec_ok_def parses_def)

lemma codec_size: "codec_ok c \<Longrightarrow> length (toWriter_of c x) = getSize_of c x"
  by (simp add: codec_ok_def)

lemma ext_okD:
  assumes "ext_ok X"
  shows "codec_ok (TX X)" "codec_ok (CoinView X tx)" "codec_ok (KeyRing X)" "codec_ok (Witness X)"
    "JSON_parse X (JSON_stringify X items) = Inr items"
  using assms by (simp_all add: ext_ok_def)

lemma byte_codec_ok: "codec_ok byte_codec"
  by (simp add: codec_ok_def byte_codec_def reads_def cuts_def)

lemma X0_ok: "ext_ok X0"
  by (simp add: ext_ok_def X0_def byte_codec_ok bracket_parse_def)

lemma mtx_eta: "\<lparr>mtx_tx = mtx_tx t, mtx_view = mtx_view t\<rparr> = (t :: ('tx, 'view) mtx)"
  by (cases t) simp

lemma wf_new_EventPacket:
  "wf_packet X (new_EventPacket X (Some items)) = vlen (JSON_stringify X items)"
  "wf_packet X (new_EventPacket X None) = vlen (JSON_stringify X [])"
  by (simp_all add: new_EventPacket_def)

subsection \<open>Each fromRaw on the bytes of its toWriter\<close>

lemma decode_cmd:
  "decode X 0 = EventPacket_fromRaw X"
  "decode X 1 = LogPacket_fromRaw"
  "decode X (Suc 0) = LogPacket_fromRaw"
  "decode X 2 = ErrorPacket_fromRaw"
  "decode X 3 = ErrorResultPacket_fromRaw"
  "decode X 4 = VerifyPacket_fromRaw X"
  "decode X 5 = VerifyResultPacket_fromRaw"
  "decode X 6 = SignPacket_fromRaw X"
  "decode X 7 = SignResultPacket_fromRaw X"
  "decode X 8 = VerifyInputPacket_fromRaw X"
  "decode X 9 = VerifyInputResultPacket_fromRaw"
  "decode X 10 = SignInputPacket_fromRaw X"
  "decode X 11 = SignInputResultPacket_fromRaw X"
  "decode X 12 = ECVerifyPacket_fromRaw"
  "decode X 13 = ECVerifyResultPacket_fromRaw"
  "decode X 14 = ECSignPacket_fromRaw"
  "decode X 15 = ECSignResultPacket_fromRaw"
  "decode X 16 = MinePacket_fromRaw"
  "decode X 17 = MineResultPacket_fromRaw"
  "decode X 18 = ScryptPacket_fromRaw"
  "decode X 19 = ScryptResultPacket_fromRaw"
  by (rule ext, simp add: decode_def)+

lemma decodes_Event:
  assumes X: "ext_ok X" and v: "vlen (JSON_stringify X items)"
  shows "decodes (EventPacket_fromRaw X) (writeVarString (JSON_stringify X items))
           (EventPacket items (JSON_stringify X []))"
proof (rule decodes_runI [OF EventPacket_fromRaw_def])
  have "parses (rbind (rlift (Inr items)) (\<lambda>a. rreturn (EventPacket a (JSON_stringify X []))))
          [] (EventPacket items (JSON_stringify X []))"
    by (rule parses_bind_return [OF parses_rlift])
  then show "parses (rbind readVarString (\<lambda>text. rbind (rlift (JSON_parse X text))
      (\<lambda>items. rreturn (EventPacket items (JSON_stringify X [])))))
      (writeVarString (JSON_stringify X items)) (EventPacket items (JSON_stringify X []))"
    by (intro parses_bind_nil [OF parses_readVarString [OF v]]) (simp add: ext_okD [OF X])
qed

lemma decodes_Log:
  "vlen text \<Longrightarrow> decodes LogPacket_fromRaw (writeVarString text) (LogPacket text)"
  by (rule decodes_runI [OF LogPacket_fromRaw_def])
     (rule parses_bind_return [OF parses_readVarString])

lemma decodes_Error:
  assumes "vlen (js_to_string (err_message e))" "vlen (js_to_string (err_stack e))"
    "vlen (js_or_empty (err_type e))"
  shows "decodes ErrorPacket_fromRaw
           (writeVarString (js_to_string (err_message e))
            @ writeVarString (js_to_string (err_stack e))
            @ writeVarString (js_or_empty (err_type e)))
           (ErrorPacket (decoded_error e))"
  by (rule decodes_runI [OF ErrorPacket_fromRaw_def])
     (rule parses_bind_return [OF parses_read_error [OF assms]])

lemma decodes_ErrorResult:
  assumes "vlen (js_to_string (err_message e))" "vlen (js_to_string (err_stack e))"
    "vlen (js_or_empty (err_type e))"
  shows "decodes ErrorResultPacket_fromRaw
           (writeVarString (js_to_string (err_message e))
            @ writeVarString (js_to_string (err_stack e))
            @ writeVarString (js_or_empty (err_type e)))
           (ErrorResultPacket (decoded_error e))"
  by (rule decodes_runI [OF ErrorResultPacket_fromRaw_def])
     (rule parses_bind_return [OF parses_read_error [OF assms]])

lemma decodes_Verify:
  assumes X: "ext_ok X"
  shows "decodes (VerifyPacket_fromRaw X)
           (toWriter_of (TX X) tx @ toWriter_of (CoinView X tx) view @ write_flags flags)
           (VerifyPacket tx view (decoded_flags flags))"
  by (rule decodes_runI [OF VerifyPacket_fromRaw_def])
     (intro parses_bind [OF codec_parses] parses_bind_return [OF parses_read_flags]
        ext_okD [OF X])

lemma decodes_VerifyResult:
  "decodes VerifyResultPacket_fromRaw (write_bool v) (VerifyResultPacket v)"
  by (rule decodes_runI [OF VerifyResultPacket_fromRaw_def])
     (rule parses_bind_return [OF parses_read_bool])

lemma decodes_Sign:
  assumes X: "ext_ok X" and v: "vlen rings"
  shows "decodes (SignPacket_fromRaw X)
           (toWriter_of (TX X) (mtx_tx tx)
            @ toWriter_of (CoinView X (mtx_tx tx)) (mtx_view tx)
            @ writeVarint (length rings)
            @ concat (map (toWriter_of (KeyRing X)) rings)
            @ writeU8 type)
           (SignPacket tx rings (type mod 2 ^ 8))"
proof -
  have rings: "parses (readN (length rings) (fromReader_of (KeyRing X)))
      (concat (map (toWriter_of (KeyRing X)) rings)) rings"
    by (rule parses_readN) (rule codec_parses [OF ext_okD(3) [OF X]])
  have "parses
     (rbind (fromReader_of (TX X)) (\<lambda>t.
      rbind (fromReader_of (CoinView X t)) (\<lambda>view.
      rbind readVarint (\<lambda>count.
      rbind (readN count (fromReader_of (KeyRing X))) (\<lambda>rings.
      rbind readU8 (\<lambda>type.
      rreturn (SignPacket \<lparr>mtx_tx = t, mtx_view = view\<rparr> rings type)))))))
     (toWriter_of (TX X) (mtx_tx tx)
            @ toWriter_of (CoinView X (mtx_tx tx)) (mtx_view tx)
            @ writeVarint (length rings)
            @ concat (map (toWriter_of (KeyRing X)) rings)
            @ writeU8 type)
     (SignPacket \<lparr>mtx_tx = mtx_tx tx, mtx_view = mtx_view tx\<rparr> rings (type mod 2 ^ 8))"
    by (intro parses_bind [OF codec_parses] parses_bind [OF parses_readVarint_length [OF v]]
        parses_bind [OF rings] parses_bind_return [OF parses_readU8] ext_okD [OF X])
  then show ?thesis
    unfolding mtx_eta by (rule decodes_runI [OF SignPacket_fromRaw_def])
qed

lemma decodes_SignResult:
  assumes X: "ext_ok X" and len: "length script = length witness"
    and v: "vlen script" and vs: "list_all vlen script"
  shows "decodes (SignResultPacket_fromRaw X)
           (writeVarint tot
            @ writeVarint (length script)
            @ concat (map (\<lambda>(s, w). Script_toWriter s @ toWriter_of (Witness X) w)
                (zip script witness)))
           (SignResultPacket (tot mod 2 ^ 64) witness script)"
proof -
  let ?pairs = "zip script witness"
  let ?one = "rbind Script_fromReader (\<lambda>s.
                rbind (fromReader_of (Witness X)) (\<lambda>w. rreturn (s, w)))"
  have one: "parses ?one ((\<lambda>(s, w). Script_toWriter s @ toWriter_of (Witness X) w) x) x"
    if "x \<in> set ?pairs" for x
  proof -
    obtain s w where x: "x = (s, w)" by (cases x)
    with that have "s \<in> set script" by (auto dest: set_zip_leftD)
    with vs have "vlen s" by (simp add: list_all_iff)
    then have "parses ?one (Script_toWriter s @ toWriter_of (Witness X) w) (s, w)"
      by (intro parses_bind [OF parses_Script]
            parses_bind_return [OF codec_parses [OF ext_okD(4) [OF X]]])
    then show ?thesis by (simp add: x)
  qed
  have n: "parses readVarint (writeVarint (length script)) (length ?pairs)"
    using parses_readVarint_length [OF v] len by simp
  have "parses
     (rbind readVarint (\<lambda>tot.
      rbind readVarint (\<lambda>count.
      rbind (readN count ?one) (\<lambda>pairs.
      rreturn (SignResultPacket tot (map snd pairs) (map fst pairs))))))
     (writeVarint tot @ writeVarint (length script)
       @ concat (map (\<lambda>(s, w). Script_toWriter s @ toWriter_of (Witness X) w) ?pairs))
     (SignResultPacket (tot mod 2 ^ 64) (map snd ?pairs) (map fst ?pairs))"
    by (intro parses_bind [OF parses_readVarint] parses_bind [OF n]
          parses_bind_return [OF parses_readN] one)
  then show ?thesis
    using len by (intro decodes_runI [OF SignResultPacket_fromRaw_def]) simp
qed

lemma decodes_VerifyInput:
  assumes X: "ext_ok X" and v: "vlen (coin_script c)"
  shows "decodes (VerifyInputPacket_fromRaw X)
           (toWriter_of (TX X) tx
            @ writeVarint index
            @ writeVarint (coin_value c)
            @ Script_toWriter (coin_script c)
            @ write_flags flags)
           (VerifyInputPacket tx (index mod 2 ^ 64) (decoded_coin c) (decoded_flags flags))"
proof -
  have "parses
     (rbind (fromReader_of (TX X)) (\<lambda>tx.
      rbind readVarint (\<lambda>index.
      rbind read_coin (\<lambda>c.
      rbind read_flags (\<lambda>flags.
      rreturn (VerifyInputPacket tx index c flags))))))
     (toWriter_of (TX X) tx
       @ writeVarint index
       @ (writeVarint (coin_value c) @ Script_toWriter (coin_script c))
       @ write_flags flags)
     (VerifyInputPacket tx (index mod 2 ^ 64) (decoded_coin c) (decoded_flags flags))"
    by (intro parses_bind [OF codec_parses] parses_bind [OF parses_readVarint]
          parses_bind [OF parses_read_coin [OF v]] parses_bind_return [OF parses_read_flags]
          ext_okD [OF X])
  then show ?thesis
    by (intro decodes_runI [OF VerifyInputPacket_fromRaw_def]) simp
qed

lemma decodes_VerifyInputResult:
  "decodes VerifyInputResultPacket_fromRaw (write_bool v) (VerifyInputResultPacket v)"
  by (rule decodes_runI [OF VerifyInputResultPacket_fromRaw_def])
     (rule parses_bind_return [OF parses_read_bool])

lemma decodes_SignInput:
  assumes X: "ext_ok X" and v: "vlen (coin_script c)"
  shows "decodes (SignInputPacket_fromRaw X)
           (toWriter_of (TX X) tx
            @ writeVarint index
            @ writeVarint (coin_value c)
            @ Script_toWriter (coin_script c)
            @ toWriter_of (KeyRing X) ring
            @ writeU8 type)
           (SignInputPacket tx (index mod 2 ^ 64) (decoded_coin c) ring (type mod 2 ^ 8))"
proof -
  have "parses
     (rbind (fromReader_of (TX X)) (\<lambda>tx.
      rbind readVarint (\<lambda>index.
      rbind read_coin (\<lambda>c.
      rbind (fromReader_of (KeyRing X)) (\<lambda>ring.
      rbind readU8 (\<lambda>type.
      rreturn (SignInputPacket tx index c ring type)))))))
     (toWriter_of (TX X) tx
       @ writeVarint index
       @ (writeVarint (coin_value c) @ Script_toWriter (coin_script c))
       @ toWriter_of (KeyRing X) ring
       @ writeU8 type)
     (SignInputPacket tx (index mod 2 ^ 64) (decoded_coin c) ring (type mod 2 ^ 8))"
    by (intro parses_bind [OF codec_parses] parses_bind [OF parses_readVarint]
          parses_bind [OF parses_read_coin [OF v]] parses_bind_return [OF parses_readU8]
          ext_okD [OF X])
  then show ?thesis
    by (intro decodes_runI [OF SignInputPacket_fromRaw_def]) simp
qed

lemma decodes_SignInputResult:
  assumes X: "ext_ok X" and v: "vlen script"
  shows "decodes (SignInputResultPacket_fromRaw X)
           (write_bool b @ Script_toWriter script @ toWriter_of (Witness X) witness)
           (SignInputResultPacket b witness script)"
  by (rule decodes_runI [OF SignInputResultPacket_fromRaw_def])
     (intro parses_bind [OF parses_read_bool] parses_bind [OF parses_Script [OF v]]
        parses_bind_return [OF codec_parses] ext_okD [OF X])

lemma decodes_ECVerify:
  assumes "vlen msg" "vlen sig" "vlen key"
  shows "decodes ECVerifyPacket_fromRaw
           (writeVarBytes msg @ writeVarBytes sig @ writeVarBytes key)
           (ECVerifyPacket msg sig key)"
  by (rule decodes_runI [OF ECVerifyPacket_fromRaw_def])
     (intro parses_bind [OF parses_readVarBytes] parses_bind_return [OF parses_readVarBytes]
        assms)

lemma decodes_ECVerifyResult:
  "decodes ECVerifyResultPacket_fromRaw (write_bool v) (ECVerifyResultPacket v)"
  by (rule decodes_runI [OF ECVerifyResultPacket_fromRaw_def])
     (rule parses_bind_return [OF parses_read_bool])

lemma decodes_ECSign:
  assumes "vlen msg" "vlen key"
  shows "decodes ECSignPacket_fromRaw (writeVarBytes msg @ writeVarBytes key)
           (ECSignPacket msg key)"
  by (rule decodes_runI [OF ECSignPacket_fromRaw_def])
     (intro parses_bind [OF parses_readVarBytes] parses_bind_return [OF parses_readVarBytes]
        assms)

lemma decodes_ECSignResult:
  "vlen sig \<Longrightarrow> decodes ECSignResultPacket_fromRaw (writeVarBytes sig) (ECSignResultPacket sig)"
  by (rule decodes_runI [OF ECSignResultPacket_fromRaw_def])
     (rule parses_bind_return [OF parses_readVarBytes])

lemma decodes_Mine:
  assumes "length dat = 80" "length target = 32"
  shows "decodes MinePacket_fromRaw
           (writeBytes dat @ writeBytes target @ writeU32 mn @ writeU32 mx)
           (MinePacket dat target (mn mod 2 ^ 32) (mx mod 2 ^ 32))"
  by (rule decodes_runI [OF MinePacket_fromRaw_def])
     (intro parses_bind [OF parses_readBytes] parses_bind [OF parses_readU32]
        parses_bind_return [OF parses_readU32] assms)

lemma decodes_MineResult:
  "decodes MineResultPacket_fromRaw (writeU32 nonce)
     (MineResultPacket (if to_int32 (nonce mod 2 ^ 32) = - 1 then - 1 else nonce mod 2 ^ 32))"
  by (rule decodes_runI [OF MineResultPacket_fromRaw_def])
     (rule parses_bind_return [OF parses_readU32])

lemma decodes_Scrypt:
  assumes "vlen passwd" "vlen salt"
  shows "decodes ScryptPacket_fromRaw
           (writeVarBytes passwd @ writeVarBytes salt
            @ writeU32 N @ writeU32 r @ writeU32 p @ writeU32 len)
           (ScryptPacket passwd salt (N mod 2 ^ 32) (r mod 2 ^ 32) (p mod 2 ^ 32)
              (len mod 2 ^ 32))"
  by (rule decodes_runI [OF ScryptPacket_fromRaw_def])
     (intro parses_bind [OF parses_readVarBytes] parses_bind [OF parses_readU32]
        parses_bind_return [OF parses_readU32] assms)

lemma decodes_ScryptResult:
  "vlen key \<Longrightarrow> decodes ScryptResultPacket_fromRaw (writeVarBytes key) (ScryptResultPacket key)"
  by (rule decodes_runI [OF ScryptResultPacket_fromRaw_def])
     (rule parses_bind_return [OF parses_readVarBytes])

lemma decode_toWriter:
  assumes X: "ext_ok X" and wf: "wf_packet X p" and bs: "toWriter X p = Inr bs"
  shows "decodes (decode X (cmd p)) bs (decoded X p)"
proof (cases p)
  case (EventPacket items json)
  then show ?thesis using wf bs decodes_Event [OF X, of items] by (auto simp: decode_cmd)
next
  case (LogPacket str)
  then show ?thesis using wf bs decodes_Log [of str] by (auto simp: decode_cmd)
next
  case (ErrorPacket e)
  then show ?thesis using wf bs decodes_Error [of e] by (auto simp: decode_cmd)
next
  case (ErrorResultPacket e)
  then show ?thesis using wf bs decodes_ErrorResult [of e] by (auto simp: decode_cmd)
next
  case (VerifyPacket tx view flags)
  then show ?thesis using bs decodes_Verify [OF X, of tx view flags] by (auto simp: decode_cmd)
next
  case (VerifyResultPacket v)
  then show ?thesis using bs decodes_VerifyResult [of v] by (auto simp: decode_cmd)
next
  case (SignPacket tx rings type)
  then show ?thesis using wf bs decodes_Sign [OF X, of rings tx type] by (auto simp: decode_cmd)
next
  case (SignResultPacket tot witness script)
  then show ?thesis
    using wf bs decodes_SignResult [OF X, of script witness tot] by (auto simp: decode_cmd)
next
  case (VerifyInputPacket tx index c flags)
  then show ?thesis
    using wf bs decodes_VerifyInput [OF X, of c tx index flags] by (auto simp: decode_cmd)
next
  case (VerifyInputResultPacket v)
  then show ?thesis using bs decodes_VerifyInputResult [of v] by (auto simp: decode_cmd)
next
  case (SignInputPacket tx index c ring type)
  then show ?thesis
    using wf bs decodes_SignInput [OF X, of c tx index ring type] by (auto simp: decode_cmd)
next
  case (SignInputResultPacket v witness script)
  then show ?thesis
    using wf bs decodes_SignInputResult [OF X, of script v witness] by (auto simp: decode_cmd)
next
  case (ECVerifyPacket msg sig key)
  then show ?thesis using wf bs decodes_ECVerify [of msg sig key] by (auto simp: decode_cmd)
next
  case (ECVerifyResultPacket v)
  then show ?thesis using bs decodes_ECVerifyResult [of v] by (auto simp: decode_cmd)
next
  case (ECSignPacket msg key)
  then show ?thesis using wf bs decodes_ECSign [of msg key] by (auto simp: decode_cmd)
next
  case (ECSignResultPacket sig)
  then show ?thesis using wf bs decodes_ECSignResult [of sig] by (auto simp: decode_cmd)
next
  case (MinePacket dat target mn mx)
  then show ?thesis using wf bs decodes_Mine [of dat target mn mx] by (auto simp: decode_cmd)
next
  case (MineResultPacket nonce)
  then show ?thesis using bs decodes_MineResult [of nonce] by (auto simp: decode_cmd)
next
  case (ScryptPacket passwd salt N r p len)
  then show ?thesis
    using wf bs decodes_Scrypt [of passwd salt N r p len] by (auto simp: decode_cmd)
next
  case (ScryptResultPacket key)
  then show ?thesis using wf bs decodes_ScryptResult [of key] by (auto simp: decode_cmd)
qed

subsection \<open>Sizes\<close>

lemma size_okD: "size_ok c \<Longrightarrow> length (toWriter_of c x) = getSize_of c x"
  by (simp add: size_ok_def)

lemma codec_ok_size: "codec_ok c \<Longrightarrow> size_ok c"
  by (simp add: codec_ok_def size_ok_def)

lemma ext_ok_sized: "ext_ok X \<Longrightarrow> ext_sized X"
  by (simp add: ext_ok_def ext_sized_def codec_ok_size)

lemma ext_sizedD:
  assumes "ext_sized X"
  shows "size_ok (TX X)" "size_ok (CoinView X tx)" "size_ok (KeyRing X)" "size_ok (Witness X)"
  using assms by (simp_all add: ext_sized_def)

lemma wf_well_shaped: "wf_packet X p \<Longrightarrow> well_shaped p"
  by (cases p) simp_all

lemma length_writeVarint: "length (writeVarint n) = sizeVarint n"
  by (simp add: writeVarint_def sizeVarint_def length_le_bytes)

lemma length_writeU8: "length (writeU8 v) = 1"
  by (simp add: writeU8_def)

lemma length_writeU32: "length (writeU32 v) = 4"
  by (simp add: writeU32_def length_le_bytes)

lemma length_write32: "length (write32 v) = 4"
  by (simp add: write32_def length_le_bytes)

lemma length_write_bool: "length (write_bool v) = 1"
  by (simp add: write_bool_def length_writeU8)

lemma length_write_flags: "length (write_flags flags) = 4"
  by (simp add: write_flags_def length_write32)

lemma length_writeVarBytes: "length (writeVarBytes v) = sizeVarBytes v"
  by (simp add: writeVarBytes_def sizeVarBytes_def length_writeVarint writeBytes_def)

lemma length_writeVarString: "length (writeVarString s) = sizeVarString s"
  by (simp add: writeVarString_def sizeVarString_def length_writeVarint writeBytes_def)

lemma length_Script_toWriter: "length (Script_toWriter s) = Script_getVarSize s"
  by (simp add: Script_toWriter_def Script_getVarSize_def length_writeVarBytes)

lemma length_writeBytes: "length (writeBytes v) = length v"
  by (simp add: writeBytes_def)

lemma length_concat_codec:
  "size_ok c \<Longrightarrow> length (concat (map (toWriter_of c) xs)) = sum_list (map (getSize_of c) xs)"
  by (induction xs) (simp_all add: size_okD)

lemma length_concat_pairs:
  "size_ok c \<Longrightarrow>
     length (concat (map (\<lambda>(s, w). Script_toWriter s @ toWriter_of c w) ps))
       = sum_list (map (\<lambda>(s, w). Script_getVarSize s + getSize_of c w) ps)"
  by (induction ps) (auto simp: size_okD length_Script_toWriter)

lemmas length_writes =
  length_writeU8 length_writeU32 length_write_bool length_write_flags length_writeVarint
  length_writeVarBytes length_writeVarString length_Script_toWriter length_writeBytes
  length_concat_codec length_concat_pairs size_okD

lemma sizeVarint_ne0: "sizeVarint n + k \<noteq> 0" "k + sizeVarint n \<noteq> 0" "sizeVarint n \<noteq> 0"
  by (simp_all add: sizeVarint_def)

lemma nonempty_writes:
  "writeVarint n \<noteq> []" "writeVarString s \<noteq> []" "writeVarBytes v \<noteq> []"
  "write_bool b \<noteq> []" "write_flags f \<noteq> []" "writeU8 i \<noteq> []" "writeU32 i \<noteq> []"
  "Script_toWriter v \<noteq> []"
  using length_writeVarint [of n] length_writeVarString [of s] length_writeVarBytes [of v]
    length_write_bool [of b] length_write_flags [of f] length_writeU8 [of i]
    length_writeU32 [of i] length_Script_toWriter [of v] sizeVarint_ne0 [of n]
  by (auto simp: sizeVarString_def sizeVarBytes_def Script_getVarSize_def sizeVarint_ne0)

lemma toWriter_getSize:
  assumes X: "ext_sized X" and wf: "well_shaped p"
  shows "\<exists>bs. toWriter X p = Inr bs \<and> getSize X p = Inr (length bs) \<and> bs \<noteq> []"
proof -
  note ok = ext_sizedD [OF X]
  note sz = sizeVarString_def sizeVarBytes_def Script_getVarSize_def sizeVarint_ne0
  show ?thesis
  proof (cases p)
    case (EventPacket items json)
    then show ?thesis by (simp add: length_writes sz nonempty_writes)
  next
    case (LogPacket str)
    then show ?thesis by (simp add: length_writes sz nonempty_writes)
  next
    case (ErrorPacket e)
    then show ?thesis by (simp add: length_writes sz nonempty_writes)
  next
    case (ErrorResultPacket e)
    then show ?thesis by (simp add: length_writes sz nonempty_writes)
  next
    case (VerifyPacket tx view flags)
    then show ?thesis using ok by (simp add: length_writes nonempty_writes)
  next
    case (VerifyResultPacket v)
    then show ?thesis by (simp add: length_writes nonempty_writes)
  next
    case (SignPacket tx rings type)
    then show ?thesis using ok by (simp add: length_writes nonempty_writes)
  next
    case (SignResultPacket tot witness script)
    then show ?thesis using ok wf by (simp add: length_writes sz nonempty_writes)
  next
    case (VerifyInputPacket tx index c flags)
    then show ?thesis using ok by (simp add: length_writes nonempty_writes)
  next
    case (VerifyInputResultPacket v)
    then show ?thesis by (simp add: length_writes nonempty_writes)
  next
    case (SignInputPacket tx index c ring type)
    then show ?thesis using ok by (simp add: length_writes nonempty_writes)
  next
    case (SignInputResultPacket v witness script)
    then show ?thesis using ok by (simp add: length_writes nonempty_writes)
  next
    case (ECVerifyPacket msg sig key)
    then show ?thesis by (simp add: length_writes sz nonempty_writes)
  next
    case (ECVerifyResultPacket v)
    then show ?thesis by (simp add: length_writes nonempty_writes)
  next
    case (ECSignPacket msg key)
    then show ?thesis by (simp add: length_writes sz nonempty_writes)
  next
    case (ECSignResultPacket sig)
    then show ?thesis by (simp add: length_writes sz nonempty_writes)
  next
    case (MinePacket dat target mn mx)
    then show ?thesis using wf by (simp add: length_writes nonempty_writes)
  next
    case (MineResultPacket nonce)
    then show ?thesis by (simp add: length_writes nonempty_writes)
  next
    case (ScryptPacket passwd salt N r p len)
    then show ?thesis by (simp add: length_writes nonempty_writes)
  next
    case (ScryptResultPacket key)
    then show ?thesis by (simp add: length_writes sz nonempty_writes)
  qed
qed

lemma toWriter_size:
  assumes "ext_ok X" and "wf_packet X p"
  shows "\<exists>bs. toWriter X p = Inr bs \<and> getSize X p = Inr (length bs) \<and> bs \<noteq> []"
  using toWriter_getSize [OF ext_ok_sized wf_well_shaped] assms by blast

subsection \<open>Values that decode to themselves\<close>

lemma to_int32_id: "- (2 ^ 31) \<le> v \<Longrightarrow> v < 2 ^ 31 \<Longrightarrow> to_int32 (v mod 2 ^ 32) = v"
proof -
  assume a: "- (2 ^ 31) \<le> v" "v < 2 ^ 31"
  have "(v mod 2 ^ 32 + 2 ^ 31) mod 2 ^ 32 = (v + 2 ^ 31) mod 2 ^ 32"
    by (simp add: mod_add_left_eq)
  also have "\<dots> = v + 2 ^ 31"
    using a by simp
  finally show ?thesis by (simp add: to_int32_def)
qed

lemma to_int32_u32:
  assumes "0 \<le> v" "v < 2 ^ 32"
  shows "to_int32 v = (if v < 2 ^ 31 then v else v - 2 ^ 32)"
proof (cases "v < 2 ^ 31")
  case True
  then show ?thesis using assms by (simp add: to_int32_def)
next
  case False
  have "v + 2 ^ 31 = v - 2 ^ 31 + 2 ^ 32"
    by simp
  then have "(v + 2 ^ 31) mod 2 ^ 32 = (v - 2 ^ 31 + 2 ^ 32) mod 2 ^ 32"
    by (rule arg_cong)
  also have "\<dots> = (v - 2 ^ 31) mod 2 ^ 32"
    by (rule mod_add_self2)
  also have "\<dots> = v - 2 ^ 31"
    using False assms by simp
  finally show ?thesis using False by (simp add: to_int32_def)
qed

lemma decoded_flags_valid: "valid_flags flags \<Longrightarrow> decoded_flags flags = flags"
proof (cases flags)
  case None
  then show ?thesis by (simp add: decoded_flags_def to_int32_def)
next
  case (Some f)
  assume "valid_flags flags"
  then have f: "- (2 ^ 31) \<le> f" "f < 2 ^ 31" "f \<noteq> - 1" using Some by simp_all
  then show ?thesis
    using to_int32_id [OF f(1,2)] Some by (simp add: decoded_flags_def)
qed

lemma decoded_error_valid: "valid_error e \<Longrightarrow> decoded_error e = e"
  by (cases e; cases "err_message e"; cases "err_stack e"; cases "err_type e")
     (simp_all add: valid_error_def decoded_error_def)

lemma decoded_coin_valid: "u64 (coin_value c) \<Longrightarrow> decoded_coin c = c"
  by (cases c) (simp add: decoded_coin_def u64_def)

lemma decoded_nonce_valid:
  assumes "nonce = - 1 \<or> (0 \<le> nonce \<and> nonce < 2 ^ 32 - 1)"
  shows "(if to_int32 (nonce mod 2 ^ 32) = - 1 then - 1 else nonce mod 2 ^ 32) = nonce"
proof (cases "nonce = - 1")
  case True
  then show ?thesis by (simp add: to_int32_def)
next
  case False
  with assms have r: "0 \<le> nonce" "nonce < 2 ^ 32 - 1" by simp_all
  then have m: "nonce mod 2 ^ 32 = nonce" by simp
  have "to_int32 nonce \<noteq> - 1"
    using to_int32_u32 [of nonce] r by (simp split: if_splits)
  then show ?thesis by (simp only: m if_False)
qed

lemma decoded_valid: "valid_values p \<Longrightarrow> same_fields p (decoded X p)"
  by (cases p)
     (simp_all add: same_fields_def decoded_flags_valid decoded_error_valid decoded_coin_valid
        decoded_nonce_valid [simplified] u8_def u32_def u64_def)

subsection \<open>The identity counter and the inject loop\<close>

lemma construct_ids:
  "c + n \<le> 2 ^ 53 \<Longrightarrow>
     construct n c = (map (\<lambda>k. (c + 1 + k) mod 2 ^ 32) [0..<n], c + n)"
proof (induction n arbitrary: c)
  case 0
  show ?case by simp
next
  case (Suc n)
  from Suc.prems have lt: "c < 2 ^ 53" and le: "Suc c + n \<le> 2 ^ 53" by simp_all
  have step: "Packet c = ((c + 1) mod 2 ^ 32, Suc c)"
    using lt by (simp add: Packet_def js_increment_def to_uint32_def)
  have "map (\<lambda>k. (c + 1 + k) mod 2 ^ 32) [0..<Suc n]
          = (c + 1) mod 2 ^ 32 # map (\<lambda>k. (Suc c + 1 + k) mod 2 ^ 32) [0..<n]"
    by (simp add: upt_conv_Cons map_Suc_upt [symmetric] del: upt_Suc)
  then show ?case
    using Suc.IH [OF le] step by simp
qed

text \<open>Across the wrap: the identities \<open>2^32 - 1\<close>, 0, 1 follow one another.\<close>

lemma identity_wraparound_example:
  "fst (construct 3 4294967294) = [4294967295, 0, 1]"
proof -
  have "construct 3 4294967294
      = (map (\<lambda>k. (4294967294 + 1 + k) mod 2 ^ 32) [0..<3], 4294967294 + 3)"
    by (rule construct_ids) simp
  moreover have "[0..<3] = [0, 1, 2]"
    by (simp add: upt_rec)
  ultimately show ?thesis by simp
qed

lemma inject_loop_nth:
  "length script = length inputs \<Longrightarrow> length witness = length inputs \<Longrightarrow> i \<le> length inputs \<Longrightarrow>
     inject_loop script witness i inputs
       = take i inputs @ map (\<lambda>(inp, s, w). inp\<lparr>input_script := s, input_witness := w\<rparr>)
           (drop i (zip inputs (zip script witness)))"
proof (induction script witness i inputs rule: inject_loop.induct)
  case (1 script witness i inputs)
  show ?case
  proof (cases "i < length inputs")
    case True
    let ?u = "(inputs ! i)\<lparr>input_script := script ! i, input_witness := witness ! i\<rparr>"
    let ?inputs = "inputs[i := ?u]"
    have IH: "inject_loop script witness (i + 1) ?inputs
       = take (i + 1) ?inputs @ map (\<lambda>(inp, s, w). inp\<lparr>input_script := s, input_witness := w\<rparr>)
           (drop (i + 1) (zip ?inputs (zip script witness)))"
      using "1.IH" [OF True] "1.prems" True by simp
    have t: "take (Suc i) ?inputs = take i inputs @ [?u]"
      using True by (simp add: take_Suc_conv_app_nth)
    have d: "drop (Suc i) (zip ?inputs (zip script witness))
        = drop (Suc i) (zip inputs (zip script witness))"
      by (simp add: drop_zip flip: drop_drop)
    have z: "drop i (zip inputs (zip script witness))
        = (inputs ! i, script ! i, witness ! i) # drop (Suc i) (zip inputs (zip script witness))"
      using True "1.prems" by (simp add: Cons_nth_drop_Suc [symmetric])
    show ?thesis
      using True IH by (subst inject_loop.simps) (simp add: t d z del: inject_loop.simps)
  next
    case False
    then show ?thesis using "1.prems" by simp
  qed
qed

lemma inject_matching:
  assumes "length script = length (tx_inputs tx)" "length witness = length (tx_inputs tx)"
  shows "SignResultPacket_inject (SignResultPacket tot witness script) tx
     = (Inr (), tx\<lparr>tx_inputs := map (\<lambda>(inp, s, w). inp\<lparr>input_script := s, input_witness := w\<rparr>)
          (zip (tx_inputs tx) (zip script witness))\<rparr>)"
  using assms inject_loop_nth [of script "tx_inputs tx" witness 0] by simp

lemmas eval_defs =
  writeVarint_def writeVarBytes_def writeVarString_def writeBytes_def writeU32_def writeU8_def
  write32_def write_flags_def write_bool_def Script_toWriter_def le_bytes_numeral
  X0_def byte_codec_def utf8_bytes_def
  sizeVarint_def sizeVarBytes_def sizeVarString_def Script_getVarSize_def

subsection \<open>Scenarios of the specification\<close>

text \<open>
  The mine packet of the spec's scenario (section 8): an all-zero header, an all-\<open>0xFF\<close>
  target, \<open>min = 0\<close>, \<open>max = 0xFFFFFFFF\<close>. It is 120 bytes and decodes to the same
  \<open>min\<close> and \<open>max\<close>: the bit pattern \<open>FF FF FF FF\<close> of \<open>max\<close> stays the number.
\<close>

lemma mine_full_range_scenario:
  "toWriter X0 mine0
      = Inr (replicate 80 0 @ replicate 32 0xff @ [0, 0, 0, 0, 0xff, 0xff, 0xff, 0xff])
   \<and> getSize X0 mine0 = Inr 120
   \<and> MinePacket_fromRaw (replicate 80 0 @ replicate 32 0xff @ [0, 0, 0, 0, 0xff, 0xff, 0xff, 0xff])
      = Inr mine0"
proof -
  have "MinePacket_fromRaw (writeBytes (replicate 80 0) @ writeBytes (replicate 32 0xff)
          @ writeU32 0 @ writeU32 0xffffffff)
      = Inr (MinePacket (replicate 80 0) (replicate 32 0xff) (0 mod 2 ^ 32) (0xffffffff mod 2 ^ 32)
              :: (byte, byte, byte, byte, char) packet)"
    by (rule decodesD(1) [OF decodes_Mine]) simp_all
  then show ?thesis
    by (simp add: mine0_def eval_defs)
qed

text \<open>
  The elliptic-curve sign result of the spec's scenario: a 71-byte signature is 72 bytes,
  one for the length.
\<close>

lemma ecsign_result_scenario:
  "length sig = 71 \<Longrightarrow>
     toWriter X (ECSignResultPacket sig) = Inr (71 # sig)
     \<and> getSize X (ECSignResultPacket sig) = Inr 72
     \<and> ECSignResultPacket_fromRaw (71 # sig) = Inr (ECSignResultPacket sig)"
proof -
  assume l: "length sig = 71"
  then have v: "vlen sig" by (simp add: vlen_def)
  have w: "writeVarBytes sig = 71 # sig"
    using l by (simp add: writeVarBytes_def writeVarint_def writeBytes_def)
  show ?thesis
    using decodesD(1) [OF decodes_ECSignResult [OF v]] l
    by (simp add: w sizeVarBytes_def sizeVarint_def)
qed

section \<open>The claims\<close>

text \<open>
  C1. Round trip, as the code has it. For a well-formed packet of any of the 20 variants
  whose values are valid (\<open>valid_values\<close>: numbers within their fields; flags other than
  -1, a nonce other than \<open>0xFFFFFFFF\<close>, mine and scrypt numbers not left at the default
  -1; error properties that are strings), decoding the serialized bytes under the
  packet's command code gives the packet back, field for field. A decoded event packet
  has the items, and for \<open>json\<close> the text of the empty list that its constructor cached.

  As stated for every valid value the law fails: a mine result with the nonce
  \<open>0xFFFFFFFF\<close>, the largest value of its field, decodes to the nonce -1.
\<close>

theorem roundtrip_valid_values:
  assumes "ext_ok X" and "wf_packet X p" and "valid_values p"
  shows "\<exists>bs q. toWriter X p = Inr bs \<and> decode X (cmd p) bs = Inr q \<and> same_fields p q"
proof -
  from toWriter_size [OF assms(1,2)] obtain bs where bs: "toWriter X p = Inr bs"
    by blast
  have "decode X (cmd p) bs = Inr (decoded X p)"
    by (rule decodesD(1) [OF decode_toWriter [OF assms(1,2) bs]])
  then show ?thesis using bs decoded_valid [OF assms(3)] by blast
qed

theorem roundtrip_valid_values_witness:
  "ext_ok X0 \<and> wf_packet X0 verify_input0 \<and> valid_values verify_input0
   \<and> toWriter X0 verify_input0
       = Inr ([9, 0, 0xff, 0, 0xf2, 0x05, 0x2a, 0x01, 0, 0, 0, 25] @ replicate 25 0x76
              @ [0xff, 0xff, 0xff, 0xff])
   \<and> decode X0 8 ([9, 0, 0xff, 0, 0xf2, 0x05, 0x2a, 0x01, 0, 0, 0, 25] @ replicate 25 0x76
              @ [0xff, 0xff, 0xff, 0xff])
       = Inr verify_input0"
proof -
  have wf: "wf_packet X0 verify_input0"
    by (simp add: verify_input0_def coin0_def vlen_def)
  have v: "valid_values verify_input0"
    by (simp add: verify_input0_def coin0_def u64_def)
  have w: "toWriter X0 verify_input0
       = Inr ([9, 0, 0xff, 0, 0xf2, 0x05, 0x2a, 0x01, 0, 0, 0, 25] @ replicate 25 0x76
              @ [0xff, 0xff, 0xff, 0xff])"
    by (simp add: verify_input0_def coin0_def eval_defs)
  have c: "cmd verify_input0 = 8"
    by (simp add: verify_input0_def)
  from roundtrip_valid_values [OF X0_ok wf v] obtain bs q where
    bs: "toWriter X0 verify_input0 = Inr bs" "decode X0 (cmd verify_input0) bs = Inr q"
      "same_fields verify_input0 q"
    by blast
  from bs(3) have "q = verify_input0"
    by (simp add: same_fields_def verify_input0_def)
  with bs(1,2) w c X0_ok wf v show ?thesis by simp
qed

theorem roundtrip_counterexample:
  "toWriter X0 (MineResultPacket 4294967295) = Inr [0xff, 0xff, 0xff, 0xff]
   \<and> decode X0 (cmd (MineResultPacket 4294967295 :: (byte, byte, byte, byte, char) packet))
        [0xff, 0xff, 0xff, 0xff] = Inr (MineResultPacket (- 1))
   \<and> (MineResultPacket (- 1) :: (byte, byte, byte, byte, char) packet)
        \<noteq> MineResultPacket 4294967295"
  by (simp add: eval_defs decode_def MineResultPacket_fromRaw_def run_def rbind_def readU32_def
      readBytes_def rreturn_def to_int32_def)

text \<open>
  Values outside \<open>valid_values\<close> that do not come back: flags of -1 decode to \<open>null\<close>, an
  error without a type to one with the empty type; and the \<open>json\<close> of a decoded event
  packet is not that of its items.
\<close>

lemma roundtrip_exclusions:
  "decode X0 4 [9, 7, 0xff, 0xff, 0xff, 0xff] = Inr (VerifyPacket 9 7 None)
   \<and> toWriter X0 (VerifyPacket 9 7 (Some (- 1))) = Inr [9, 7, 0xff, 0xff, 0xff, 0xff]
   \<and> toWriter X0 (ErrorPacket \<lparr>err_message = JString [], err_stack = JString [], err_type = JUndefined\<rparr>)
        = Inr [0, 0, 0]
   \<and> decode X0 2 [0, 0, 0]
        = Inr (ErrorPacket \<lparr>err_message = JString [], err_stack = JString [], err_type = JString []\<rparr>)
   \<and> toWriter X0 event0 = Inr (writeVarString ''[hi]'')
   \<and> decode X0 0 (writeVarString ''[hi]'') = Inr (EventPacket ''hi'' ''[]'')"
proof -
  have wf: "wf_packet X0 event0"
    by (simp add: event0_def X0_def vlen_def)
  have w: "toWriter X0 event0 = Inr (writeVarString ''[hi]'')"
    by (simp add: event0_def)
  have e: "decode X0 0 (writeVarString ''[hi]'') = Inr (EventPacket ''hi'' ''[]'')"
    using decodesD(1) [OF decode_toWriter [OF X0_ok wf w]]
    by (simp add: event0_def X0_def)
  have v: "decode X0 4 [9, 7, 0xff, 0xff, 0xff, 0xff] = Inr (VerifyPacket 9 7 None)"
    using decodesD(1) [OF decode_toWriter [OF X0_ok, of "VerifyPacket 9 7 None"
        "[9, 7, 0xff, 0xff, 0xff, 0xff]"]]
    by (simp add: eval_defs decoded_flags_def to_int32_def)
  have r: "decode X0 2 [0, 0, 0]
        = Inr (ErrorPacket \<lparr>err_message = JString [], err_stack = JString [], err_type = JString []\<rparr>)"
    using decodesD(1) [OF decode_toWriter [OF X0_ok, of
        "ErrorPacket \<lparr>err_message = JString [], err_stack = JString [], err_type = JString []\<rparr>"
        "[0, 0, 0]"]]
    by (simp add: eval_defs decoded_error_def vlen_def)
  show ?thesis
    using w e v r by (simp add: eval_defs)
qed

text \<open>
  C2. Size accuracy. For every packet of the data model's shape (an 80-byte header and a
  32-byte target in a mine packet, as many witnesses as scripts in a sign result),
  \<open>toWriter\<close> succeeds and writes exactly \<open>getSize\<close> bytes, the carried classes
  writing as many bytes as their own sizes say.
\<close>

theorem size_accuracy:
  assumes "ext_sized X" and "well_shaped p"
  shows "\<exists>bs. toWriter X p = Inr bs \<and> getSize X p = Inr (length bs)"
  using toWriter_getSize [OF assms] by blast

theorem size_accuracy_witness:
  "ext_sized X0 \<and> well_shaped sign_result0
   \<and> toWriter X0 sign_result0 = Inr [1, 2, 2, 1, 2, 5, 0, 6]
   \<and> getSize X0 sign_result0 = Inr 8"
proof -
  have X: "ext_sized X0"
    by (rule ext_ok_sized [OF X0_ok])
  have wf: "well_shaped sign_result0"
    by (simp add: sign_result0_def)
  have w: "toWriter X0 sign_result0 = Inr [1, 2, 2, 1, 2, 5, 0, 6]"
    by (simp add: sign_result0_def eval_defs)
  show ?thesis
    using X wf w size_accuracy [OF X wf] by auto
qed

text \<open>
  C3. Sentinels, as the code has them. Verify and verify-input packets with \<open>flags = null\<close>
  end in the bytes \<open>FF FF FF FF\<close> and decode to \<open>flags = null\<close>; a mine result with the
  nonce -1 is the bytes \<open>FF FF FF FF\<close> and decodes to the nonce -1. A mine packet with
  \<open>min\<close> and \<open>max\<close> at -1 is written with the same bytes, but \<open>MinePacket.fromRaw\<close>
  converts nothing: it decodes to \<open>min = max = 4294967295\<close>.
\<close>

theorem sentinel_roundtrip:
  fixes X :: "('tx, 'view, 'ring, 'wit, 'json) ext"
  assumes X: "ext_ok X" and c: "vlen (coin_script c)" "u64 index" "u64 (coin_value c)"
    and m: "length dat = 80" "length target = 32"
  shows "(\<exists>bs. toWriter X (VerifyPacket tx view None) = Inr (bs @ [0xff, 0xff, 0xff, 0xff])
            \<and> VerifyPacket_fromRaw X (bs @ [0xff, 0xff, 0xff, 0xff])
                = Inr (VerifyPacket tx view None))
     \<and> (\<exists>bs. toWriter X (VerifyInputPacket tx index c None) = Inr (bs @ [0xff, 0xff, 0xff, 0xff])
            \<and> VerifyInputPacket_fromRaw X (bs @ [0xff, 0xff, 0xff, 0xff])
                = Inr (VerifyInputPacket tx index c None))
     \<and> toWriter X (MineResultPacket (- 1)) = Inr [0xff, 0xff, 0xff, 0xff]
     \<and> MineResultPacket_fromRaw [0xff, 0xff, 0xff, 0xff]
          = Inr (MineResultPacket (- 1) :: ('tx, 'view, 'ring, 'wit, 'json) packet)
     \<and> toWriter X (MinePacket dat target (- 1) (- 1))
          = Inr (dat @ target @ [0xff, 0xff, 0xff, 0xff] @ [0xff, 0xff, 0xff, 0xff])
     \<and> MinePacket_fromRaw (dat @ target @ [0xff, 0xff, 0xff, 0xff] @ [0xff, 0xff, 0xff, 0xff])
          = Inr (MinePacket dat target 4294967295 4294967295
                  :: ('tx, 'view, 'ring, 'wit, 'json) packet)"
proof -
  have none: "decoded_flags None = None"
    by (rule decoded_flags_valid) simp
  have v: "VerifyPacket_fromRaw X
      (toWriter_of (TX X) tx @ toWriter_of (CoinView X tx) view @ write_flags None)
      = Inr (VerifyPacket tx view None)"
    using decodesD(1) [OF decodes_Verify [OF X, of tx view None]] by (simp add: none)
  have vi: "VerifyInputPacket_fromRaw X
      (toWriter_of (TX X) tx @ writeVarint index @ writeVarint (coin_value c)
         @ Script_toWriter (coin_script c) @ write_flags None)
      = Inr (VerifyInputPacket tx index c None)"
    using decodesD(1) [OF decodes_VerifyInput [OF X c(1), of tx index None]] c(2,3)
    by (simp add: none decoded_coin_valid u64_def)
  have mr: "MineResultPacket_fromRaw (writeU32 (- 1))
      = Inr (MineResultPacket (- 1) :: ('tx, 'view, 'ring, 'wit, 'json) packet)"
    using decodesD(1) [OF decodes_MineResult [of "- 1"]] by (simp add: to_int32_def)
  have mi: "MinePacket_fromRaw (writeBytes dat @ writeBytes target @ writeU32 (- 1) @ writeU32 (- 1))
      = Inr (MinePacket dat target 4294967295 4294967295 :: ('tx, 'view, 'ring, 'wit, 'json) packet)"
    using decodesD(1) [OF decodes_Mine [OF m, of "- 1" "- 1"]] by simp
  have c1: "\<exists>bs. toWriter X (VerifyPacket tx view None) = Inr (bs @ [0xff, 0xff, 0xff, 0xff])
            \<and> VerifyPacket_fromRaw X (bs @ [0xff, 0xff, 0xff, 0xff])
                = Inr (VerifyPacket tx view None)"
    using v
    by (intro exI [of _ "toWriter_of (TX X) tx @ toWriter_of (CoinView X tx) view"])
       (simp add: write_flags_None)
  have c2: "\<exists>bs. toWriter X (VerifyInputPacket tx index c None) = Inr (bs @ [0xff, 0xff, 0xff, 0xff])
            \<and> VerifyInputPacket_fromRaw X (bs @ [0xff, 0xff, 0xff, 0xff])
                = Inr (VerifyInputPacket tx index c None)"
    using vi
    by (intro exI [of _ "toWriter_of (TX X) tx @ writeVarint index @ writeVarint (coin_value c)
         @ Script_toWriter (coin_script c)"])
       (simp add: write_flags_None)
  show ?thesis
    using c1 c2 mr mi by (simp add: writeU32_minus1 writeBytes_def)
qed

theorem sentinel_roundtrip_witness:
  "ext_ok X0 \<and> vlen (coin_script coin0) \<and> u64 0 \<and> u64 (coin_value coin0)
   \<and> length (replicate 80 (0 :: byte)) = 80 \<and> length (replicate 32 (0xff :: byte)) = 32
   \<and> toWriter X0 (MineResultPacket (- 1)) = Inr [0xff, 0xff, 0xff, 0xff]
   \<and> MineResultPacket_fromRaw [0xff, 0xff, 0xff, 0xff]
        = Inr (MineResultPacket (- 1) :: (byte, byte, byte, byte, char) packet)
   \<and> MinePacket_fromRaw (replicate 80 0 @ replicate 32 0xff
          @ [0xff, 0xff, 0xff, 0xff] @ [0xff, 0xff, 0xff, 0xff])
        = Inr (MinePacket (replicate 80 0) (replicate 32 0xff) 4294967295 4294967295
                :: (byte, byte, byte, byte, char) packet)"
proof -
  have h: "vlen (coin_script coin0)" "u64 0" "u64 (coin_value coin0)"
    "length (replicate 80 (0 :: byte)) = 80" "length (replicate 32 (0xff :: byte)) = 32"
    by (simp_all add: coin0_def vlen_def u64_def)
  show ?thesis
    using X0_ok h sentinel_roundtrip [OF X0_ok h, of 9 7] by simp
qed

theorem mine_sentinel_counterexample:
  "toWriter X0 (MinePacket (replicate 80 0) (replicate 32 0xff) (- 1) (- 1))
      = Inr (replicate 80 0 @ replicate 32 0xff @ replicate 8 0xff)
   \<and> MinePacket_fromRaw (replicate 80 0 @ replicate 32 0xff @ replicate 8 0xff)
      = Inr (MinePacket (replicate 80 0) (replicate 32 0xff) 4294967295 4294967295
              :: (byte, byte, byte, byte, char) packet)
   \<and> (MinePacket (replicate 80 0) (replicate 32 0xff) 4294967295 4294967295
              :: (byte, byte, byte, byte, char) packet)
      \<noteq> MinePacket (replicate 80 0) (replicate 32 0xff) (- 1) (- 1)"
proof -
  have r: "replicate 8 (0xff :: byte) = [0xff, 0xff, 0xff, 0xff, 0xff, 0xff, 0xff, 0xff]"
    by (simp add: numeral_eq_Suc)
  have "MinePacket_fromRaw (writeBytes (replicate 80 0) @ writeBytes (replicate 32 0xff)
          @ writeU32 (- 1) @ writeU32 (- 1))
      = Inr (MinePacket (replicate 80 0) (replicate 32 0xff) ((- 1) mod 2 ^ 32) ((- 1) mod 2 ^ 32)
              :: (byte, byte, byte, byte, char) packet)"
    by (rule decodesD(1) [OF decodes_Mine]) simp_all
  then show ?thesis
    by (simp add: r writeU32_minus1 writeBytes_def)
qed

text \<open>
  C4. Injection alignment. When the script array or the witness array of a sign result
  differs in length from the transaction's inputs, \<open>inject\<close> fails on its assertion and
  the transaction is as it was: no input has been written. Likewise the inject of a
  sign-input result fails, with the transaction as it was, when \<open>i\<close> is not the index of
  an input.
\<close>

theorem inject_alignment:
  "(length script \<noteq> length (tx_inputs tx) \<or> length witness \<noteq> length (tx_inputs tx) \<longrightarrow>
      SignResultPacket_inject (SignResultPacket tot witness script) tx = (Inl AssertionError, tx))
   \<and> (i < 0 \<or> int (length (tx_inputs tx)) \<le> i \<longrightarrow>
      SignInputResultPacket_inject (SignInputResultPacket v w s) tx i = (Inl AssertionError, tx))"
  by auto

theorem inject_alignment_witness:
  "length [[7 :: byte]] \<noteq> length (tx_inputs tx0)
   \<and> SignResultPacket_inject (SignResultPacket 1 [8] [[7]] :: (byte, byte, byte, byte, char) packet) tx0
       = (Inl AssertionError, tx0)
   \<and> int (length (tx_inputs tx0)) \<le> 2
   \<and> SignInputResultPacket_inject
         (SignInputResultPacket True 8 [7] :: (byte, byte, byte, byte, char) packet) tx0 2
       = (Inl AssertionError, tx0)"
proof -
  have a: "length [[7 :: byte]] \<noteq> length (tx_inputs tx0)"
    and b: "int (length (tx_inputs tx0)) \<le> 2"
    by (simp_all add: tx0_def)
  show ?thesis
    using a b
      inject_alignment [of "[[7]]" tx0 "[8]" 1 2 True 8 "[7]"]
    by simp
qed

text \<open>
  C5. Truncation. The bytes of a well-formed packet are not empty, and decoding them with
  the last byte removed (or cut at any other point) fails with a framing error.
\<close>

theorem truncation_rejected:
  assumes "ext_ok X" and "wf_packet X p"
  shows "\<exists>bs. toWriter X p = Inr bs \<and> bs \<noteq> []
           \<and> decode X (cmd p) (butlast bs) = Inl FramingError
           \<and> (\<forall>n<length bs. decode X (cmd p) (take n bs) = Inl FramingError)"
proof -
  from toWriter_size [OF assms] obtain bs where bs: "toWriter X p = Inr bs" "bs \<noteq> []"
    by blast
  note d = decodesD(3) [OF decode_toWriter [OF assms bs(1)]]
  have "length bs - 1 < length bs"
    using bs(2) by (cases bs) simp_all
  then have "decode X (cmd p) (take (length bs - 1) bs) = Inl FramingError"
    by (rule d)
  then have "decode X (cmd p) (butlast bs) = Inl FramingError"
    by (simp only: butlast_conv_take)
  then show ?thesis using bs d by blast
qed

theorem truncation_rejected_witness:
  "ext_ok X0 \<and> wf_packet X0 mine0
   \<and> toWriter X0 mine0
       = Inr (replicate 80 0 @ replicate 32 0xff @ [0, 0, 0, 0, 0xff, 0xff, 0xff, 0xff])
   \<and> decode X0 16
        (butlast (replicate 80 0 @ replicate 32 0xff @ [0, 0, 0, 0, 0xff, 0xff, 0xff, 0xff]))
       = Inl FramingError"
proof -
  have wf: "wf_packet X0 mine0"
    by (simp add: mine0_def)
  have w: "toWriter X0 mine0
       = Inr (replicate 80 0 @ replicate 32 0xff @ [0, 0, 0, 0, 0xff, 0xff, 0xff, 0xff])"
    by (simp add: mine0_def eval_defs)
  have c: "cmd mine0 = 16"
    by (simp add: mine0_def)
  from truncation_rejected [OF X0_ok wf] obtain bs where
    bs: "toWriter X0 mine0 = Inr bs" "decode X0 (cmd mine0) (butlast bs) = Inl FramingError"
    by blast
  from bs(1) w have "bs = replicate 80 0 @ replicate 32 0xff @ [0, 0, 0, 0, 0xff, 0xff, 0xff, 0xff]"
    by simp
  with bs(2) c X0_ok wf w show ?thesis by simp
qed

text \<open>
  C6. Identity monotonicity. Among \<open>n\<close> packets constructed in sequence from the counter
  \<open>c\<close>, the packet at position \<open>k\<close> gets the identity \<open>(c + 1 + k) mod 2^32\<close>: each
  identity is the one before plus one, modulo \<open>2^32\<close>; two packets with the same
  identity are at least \<open>2^32\<close> constructions apart; and while the counter stays below
  \<open>2^32\<close> a later packet has the greater identity. The counter is a JavaScript number,
  so this is for the first \<open>2^53\<close> constructions of a process.
\<close>

theorem identity_monotonic:
  assumes range: "c + n \<le> 2 ^ 53" and ids: "ids = fst (construct n c)"
    and i: "i < j" and j: "j < n"
  shows "length ids = n
    \<and> ids ! i = (c + 1 + i) mod 2 ^ 32 \<and> ids ! j = (c + 1 + j) mod 2 ^ 32
    \<and> ids ! Suc i = (ids ! i + 1) mod 2 ^ 32
    \<and> (ids ! i = ids ! j \<longrightarrow> 2 ^ 32 \<le> j - i)
    \<and> (c + n < 2 ^ 32 \<longrightarrow> ids ! i < ids ! j)"
proof -
  have eq: "ids = map (\<lambda>k. (c + 1 + k) mod 2 ^ 32) [0..<n]"
    using construct_ids [OF range] ids by simp
  have len: "length ids = n" by (simp add: eq)
  have nth: "ids ! k = (c + 1 + k) mod 2 ^ 32" if "k < n" for k
    using that by (simp add: eq)
  have si: "Suc i < n" using i j by simp
  have succ: "ids ! Suc i = (ids ! i + 1) mod 2 ^ 32"
    using nth [OF si] nth [of i] si by (simp add: mod_Suc_eq)
  have far: "2 ^ 32 \<le> j - i" if "ids ! i = ids ! j"
  proof -
    have "(c + 1 + j) mod 2 ^ 32 = (c + 1 + i) mod 2 ^ 32"
      using that nth [OF j] nth [of i] i j by simp
    then have "(2::nat) ^ 32 dvd (c + 1 + j) - (c + 1 + i)"
      using i by (simp add: mod_eq_dvd_iff_nat)
    then have "(2::nat) ^ 32 dvd j - i" by simp
    then show ?thesis using i by (auto dest: dvd_imp_le)
  qed
  have inc: "ids ! i < ids ! j" if "c + n < 2 ^ 32"
    using that nth [OF j] nth [of i] i j by simp
  show ?thesis
    using len nth [OF j] nth [of i] i j succ far inc by simp
qed

theorem identity_monotonic_witness:
  "Packet_id_init + 3 \<le> 2 ^ 53 \<and> (0::nat) < 1 \<and> (1::nat) < 3
   \<and> length (fst (construct 3 Packet_id_init)) = 3
   \<and> fst (construct 3 Packet_id_init) ! 0 = 1
   \<and> fst (construct 3 Packet_id_init) ! 1 = 2
   \<and> fst (construct 3 Packet_id_init) ! 0 < fst (construct 3 Packet_id_init) ! 1"
proof -
  have h: "Packet_id_init + 3 \<le> 2 ^ 53" by (simp add: Packet_id_init_def)
  have i: "(0::nat) < 1" and j: "(1::nat) < 3" by simp_all
  show ?thesis
    using h identity_monotonic [OF h refl i j] by (simp add: Packet_id_init_def)
qed

text \<open>
  C7. The counter starts at 0 and is incremented before it is read: the first packet of a
  process gets the identity 1 (not 0), and leaves the counter at 1.
\<close>

theorem first_identity_is_one: "Packet Packet_id_init = (1, 1)"
  by (simp add: Packet_def Packet_id_init_def js_increment_def to_uint32_def)

theorem first_identity_not_zero: "fst (Packet Packet_id_init) \<noteq> 0"
  by (simp add: Packet_def Packet_id_init_def js_increment_def to_uint32_def)

text \<open>
  C8. Trailing bytes. Decoding the bytes of a well-formed packet succeeds, and with any
  bytes appended it gives the same packet: no \<open>fromRaw\<close> looks at what its reader has
  left.
\<close>

theorem trailing_bytes_ignored:
  assumes "ext_ok X" and "wf_packet X p"
  shows "\<exists>bs q. toWriter X p = Inr bs \<and> decode X (cmd p) bs = Inr q
           \<and> (\<forall>extra. decode X (cmd p) (bs @ extra) = Inr q)"
proof -
  from toWriter_size [OF assms] obtain bs where bs: "toWriter X p = Inr bs"
    by blast
  note d = decodesD(1,2) [OF decode_toWriter [OF assms bs]]
  show ?thesis using bs d by blast
qed

theorem trailing_bytes_ignored_witness:
  "ext_ok X0 \<and> wf_packet X0 event0
   \<and> toWriter X0 event0 = Inr (writeVarString ''[hi]'')
   \<and> decode X0 0 (writeVarString ''[hi]'') = Inr (EventPacket ''hi'' ''[]'')
   \<and> decode X0 0 (writeVarString ''[hi]'' @ [1, 2, 3]) = Inr (EventPacket ''hi'' ''[]'')"
proof -
  have wf: "wf_packet X0 event0"
    by (simp add: event0_def X0_def vlen_def)
  have w: "toWriter X0 event0 = Inr (writeVarString ''[hi]'')"
    by (simp add: event0_def)
  have c: "cmd event0 = 0"
    by (simp add: event0_def)
  have d: "decode X0 0 (writeVarString ''[hi]'') = Inr (EventPacket ''hi'' ''[]'')"
    using decodesD(1) [OF decode_toWriter [OF X0_ok wf w]] c
    by (simp add: event0_def X0_def)
  from trailing_bytes_ignored [OF X0_ok wf] obtain bs q where
    bs: "toWriter X0 event0 = Inr bs" "decode X0 (cmd event0) bs = Inr q"
      "\<And>extra. decode X0 (cmd event0) (bs @ extra) = Inr q"
    by blast
  from bs(1) w have e: "bs = writeVarString ''[hi]''" by simp
  from bs(2) d c e have "q = EventPacket ''hi'' ''[]''" by simp
  with bs(3) [of "[1, 2, 3]"] c e X0_ok wf w d show ?thesis by simp
qed

text \<open>
  C9. The boolean byte is not validated. The verify result, the verify-input result and
  the elliptic-curve verify result decode any first byte \<open>b\<close> to the value \<open>b = 1\<close>, with
  no error; the sign-input result does so for its success flag, whatever else goes on to
  be read (the script and the witness are read after the flag and do not depend on it).
\<close>

theorem boolean_byte_not_validated:
  fixes X :: "('tx, 'view, 'ring, 'wit, 'json) ext"
  shows "VerifyResultPacket_fromRaw (b # rest)
       = Inr (VerifyResultPacket (b = 1) :: ('tx, 'view, 'ring, 'wit, 'json) packet)
   \<and> VerifyInputResultPacket_fromRaw (b # rest)
       = Inr (VerifyInputResultPacket (b = 1) :: ('tx, 'view, 'ring, 'wit, 'json) packet)
   \<and> ECVerifyResultPacket_fromRaw (b # rest)
       = Inr (ECVerifyResultPacket (b = 1) :: ('tx, 'view, 'ring, 'wit, 'json) packet)
   \<and> SignInputResultPacket_fromRaw X (b # rest) =
       (case rbind Script_fromReader (\<lambda>s. rbind (fromReader_of (Witness X)) (\<lambda>w. rreturn (s, w))) rest of
          Inl e \<Rightarrow> Inl e
        | Inr ((s, w), left) \<Rightarrow> Inr (SignInputResultPacket (b = 1) w s))"
  by (simp add: VerifyResultPacket_fromRaw_def VerifyInputResultPacket_fromRaw_def
      ECVerifyResultPacket_fromRaw_def SignInputResultPacket_fromRaw_def
      run_def rbind_def read_bool_byte rreturn_def split: sum.splits prod.splits)

theorem boolean_byte_not_validated_witness:
  "VerifyResultPacket_fromRaw [2]
       = Inr (VerifyResultPacket False :: (byte, byte, byte, byte, char) packet)
   \<and> VerifyInputResultPacket_fromRaw [255]
       = Inr (VerifyInputResultPacket False :: (byte, byte, byte, byte, char) packet)
   \<and> ECVerifyResultPacket_fromRaw [1]
       = Inr (ECVerifyResultPacket True :: (byte, byte, byte, byte, char) packet)
   \<and> SignInputResultPacket_fromRaw X0 [7, 1, 9, 5] = Inr (SignInputResultPacket False 5 [9])"
proof -
  have r: "rbind Script_fromReader (\<lambda>s. rbind (fromReader_of (Witness X0)) (\<lambda>w. rreturn (s, w)))
      [1, 9, 5] = Inr (([9], 5), [])"
    by (simp add: Script_fromReader_def readVarBytes_def readVarint_def rbind_def readBytes_def
        rreturn_def X0_def byte_codec_def)
  show ?thesis
    using boolean_byte_not_validated [of 2 "[]" X0]
      boolean_byte_not_validated [of 255 "[]" X0]
      boolean_byte_not_validated [of 1 "[]" X0]
      boolean_byte_not_validated [of 7 "[1, 9, 5]" X0] r
    by simp
qed

text \<open>
  C10. The error packets write \<open>error.message + ''\<close>, \<open>error.stack + ''\<close> and
  \<open>error.type || ''\<close>: message and stack as the strings they coerce to, the type tag
  as the empty string (the single byte 0) when the error has no type or an empty one.
  Whatever decodes as an error packet has three strings for message, stack and type.
\<close>

theorem error_fields_are_strings:
  "toWriter X (ErrorPacket e) =
      Inr (writeVarString (js_to_string (err_message e))
           @ writeVarString (js_to_string (err_stack e))
           @ (if is_string (err_type e) \<and> err_type e \<noteq> JString [] 
              then writeVarString (js_or_empty (err_type e)) else [0]))
   \<and> toWriter X (ErrorResultPacket e) = toWriter X (ErrorPacket e)
   \<and> (ErrorPacket_fromRaw data = Inr p \<longrightarrow>
        (\<exists>m s t. p = ErrorPacket \<lparr>err_message = JString m, err_stack = JString s, err_type = JString t\<rparr>))
   \<and> (ErrorResultPacket_fromRaw data = Inr q \<longrightarrow>
        (\<exists>m s t. q = ErrorResultPacket \<lparr>err_message = JString m, err_stack = JString s, err_type = JString t\<rparr>))"
proof -
  have empty: "writeVarString [] = [0]"
    by (simp add: writeVarString_def writeVarint_def utf8_bytes_def writeBytes_def)
  have w: "(if is_string (err_type e) \<and> err_type e \<noteq> JString []
            then writeVarString (js_or_empty (err_type e)) else [0])
        = writeVarString (js_or_empty (err_type e))"
    by (cases "err_type e") (simp_all add: empty)
  have p: "\<exists>m s t. p = ErrorPacket \<lparr>err_message = JString m, err_stack = JString s, err_type = JString t\<rparr>"
    if "ErrorPacket_fromRaw data = Inr p"
    using that run_bind_return_Inr [of read_error ErrorPacket data p] read_error_strings
    by (fastforce simp: ErrorPacket_fromRaw_def)
  have q: "\<exists>m s t. q = ErrorResultPacket \<lparr>err_message = JString m, err_stack = JString s, err_type = JString t\<rparr>"
    if "ErrorResultPacket_fromRaw data = Inr q"
    using that run_bind_return_Inr [of read_error ErrorResultPacket data q] read_error_strings
    by (fastforce simp: ErrorResultPacket_fromRaw_def)
  show ?thesis
    using p q by (simp add: w)
qed

theorem error_fields_are_strings_witness:
  "toWriter X0 (ErrorPacket error0)
      = Inr (writeVarString ''a'' @ writeVarString ''undefined'' @ [0])
   \<and> ErrorPacket_fromRaw [0, 0, 0]
      = Inr (ErrorPacket \<lparr>err_message = JString [], err_stack = JString [], err_type = JString []\<rparr>
              :: (byte, byte, byte, byte, char) packet)
   \<and> ErrorResultPacket_fromRaw [0, 0, 0]
      = Inr (ErrorResultPacket \<lparr>err_message = JString [], err_stack = JString [], err_type = JString []\<rparr>
              :: (byte, byte, byte, byte, char) packet)
   \<and> (\<exists>m s t. (ErrorPacket \<lparr>err_message = JString [], err_stack = JString [], err_type = JString []\<rparr>
              :: (byte, byte, byte, byte, char) packet)
          = ErrorPacket \<lparr>err_message = JString m, err_stack = JString s, err_type = JString t\<rparr>)"
proof -
  let ?e = "\<lparr>err_message = JString [], err_stack = JString [], err_type = JString []\<rparr>"
  have rs: "readVarString (0 # rest) = Inr ([], rest)" for rest
    by (simp add: readVarString_def readVarint_def rbind_def readBytes_def rreturn_def
        utf8_string_def)
  have p: "ErrorPacket_fromRaw [0, 0, 0] = Inr (ErrorPacket ?e :: (byte, byte, byte, byte, char) packet)"
    by (simp add: ErrorPacket_fromRaw_def run_def rbind_def read_error_def rs rreturn_def)
  have q: "ErrorResultPacket_fromRaw [0, 0, 0]
      = Inr (ErrorResultPacket ?e :: (byte, byte, byte, byte, char) packet)"
    by (simp add: ErrorResultPacket_fromRaw_def run_def rbind_def read_error_def rs rreturn_def)
  show ?thesis
    using p q error_fields_are_strings [of X0 error0 "[0, 0, 0]" "ErrorPacket ?e"
        "ErrorResultPacket ?e"]
    by (simp add: error0_def)
qed

end
